theory Spec2Isabelle
  imports Main "HOL-Library.Multiset" "HOL-Library.Char_ord" "HOL-Library.List_Lexorder"
begin

section \<open>Python strings\<close>

text \<open>
  A Python \<open>str\<close> is a \<open>string\<close>.  \<open>str_find c s\<close> and \<open>str_rfind c s\<close> are
  \<open>s.find(c)\<close> and \<open>s.rfind(c)\<close> for a one-character needle: the index of the first
  (last) occurrence, or \<open>-1\<close>.
\<close>

fun str_find :: "char \<Rightarrow> string \<Rightarrow> int" where
  "str_find c [] = -1"
| "str_find c (x # xs) =
     (if x = c then 0 else (let r = str_find c xs in if r = -1 then -1 else r + 1))"

fun str_rfind :: "char \<Rightarrow> string \<Rightarrow> int" where
  "str_rfind c [] = -1"
| "str_rfind c (x # xs) =
     (let r = str_rfind c xs in if r \<noteq> -1 then r + 1 else if x = c then 0 else -1)"

text \<open>
  Slices \<open>s[i:j]\<close>, \<open>s[i:]\<close> and \<open>s[:j]\<close>: a negative bound counts from the end, and
  every bound is clamped to the string.
\<close>

definition slice_index :: "nat \<Rightarrow> int \<Rightarrow> nat" where
  "slice_index n i = (if i < 0 then nat (max 0 (int n + i)) else min n (nat i))"

definition slice :: "string \<Rightarrow> int \<Rightarrow> int \<Rightarrow> string" where
  "slice s i j =
     (let a = slice_index (length s) i; b = slice_index (length s) j
      in take (b - a) (drop a s))"

definition slice_from :: "string \<Rightarrow> int \<Rightarrow> string" where
  "slice_from s i = drop (slice_index (length s) i) s"

definition slice_to :: "string \<Rightarrow> int \<Rightarrow> string" where
  "slice_to s j = take (slice_index (length s) j) s"

definition startswith :: "string \<Rightarrow> string \<Rightarrow> bool" where
  "startswith s p = (take (length p) s = p)"

definition endswith :: "string \<Rightarrow> string \<Rightarrow> bool" where
  "endswith s p = (length p \<le> length s \<and> drop (length s - length p) s = p)"

definition removeprefix :: "string \<Rightarrow> string \<Rightarrow> string" where
  "removeprefix s p = (if startswith s p then drop (length p) s else s)"

definition removesuffix :: "string \<Rightarrow> string \<Rightarrow> string" where
  "removesuffix s p = (if endswith s p then take (length s - length p) s else s)"

text \<open>\<open>strip s c\<close> is \<open>s.strip(c)\<close> for a one-character set \<open>c\<close>.\<close>

definition strip :: "string \<Rightarrow> char \<Rightarrow> string" where
  "strip s c = rev (dropWhile (\<lambda>x. x = c) (rev (dropWhile (\<lambda>x. x = c) s)))"

text \<open>
  \<open>str_replace s old new\<close> is \<open>s.replace(old, new)\<close>: the occurrences of \<open>old\<close>
  are replaced from left to right without overlap; an empty \<open>old\<close> matches before every
  character and at the end.
\<close>

function str_replace :: "string \<Rightarrow> string \<Rightarrow> string \<Rightarrow> string" where
  "str_replace [] old new = (if old = [] then new else [])"
| "str_replace (c # cs) old new =
     (if old = [] then new @ c # str_replace cs old new
      else if startswith (c # cs) old
        then new @ str_replace (drop (length old) (c # cs)) old new
        else c # str_replace cs old new)"
  by pat_completeness auto
termination
  by (relation "measure (\<lambda>(s, old, new). length s)") auto

text \<open>\<open>str(n)\<close> for an integer: its decimal digits, with a minus sign when negative.\<close>

definition digit_char :: "nat \<Rightarrow> char" where
  "digit_char d = ''0123456789'' ! d"

function str_nat :: "nat \<Rightarrow> string" where
  "str_nat n = (if n < 10 then [digit_char n] else str_nat (n div 10) @ [digit_char (n mod 10)])"
  by pat_completeness auto
termination
  by (relation "measure id") auto

declare str_nat.simps [simp del]

definition str_int :: "int \<Rightarrow> string" where
  "str_int i = (if i < 0 then CHR ''-'' # str_nat (nat (- i)) else str_nat (nat i))"

section \<open>The data model\<close>

text \<open>
  Modelled from the spec: the records \<open>ExportedSymbol\<close> and \<open>ExportedDoc\<close> of the
  module \<open>exported_api\<close>, which is not among the sources.  A symbol has its owning file,
  line, local name and the two lists of public names; a doc has the file and line of its
  declaration, the modules it binds, in the order the generator runs through them, and
  the docstring.  These are the fields the generator reads; the fields \<open>file_name\<close> and
  \<open>line_no\<close> of a doc are \<open>doc_file_name\<close> and \<open>doc_line_no\<close> here.  The two lists
  \<open>symbols\<close> and \<open>docs\<close> that \<open>ExportedApi.read\<close> collects from the mapping files are
  parameters of \<open>get_public_api\<close>.
\<close>

record ExportedSymbol =
  file_name :: string
  line_no :: int
  symbol_name :: string
  v1_apis :: "string list"
  v2_apis :: "string list"

record ExportedDoc =
  doc_file_name :: string
  doc_line_no :: int
  modules :: "string list"
  docstring :: string

text \<open>
  The dataclass \<open>_Entrypoint\<close>; its fields \<open>module\<close> and \<open>name\<close> are \<open>ep_module\<close> and
  \<open>ep_name\<close>.
\<close>

record Entrypoint =
  ep_module :: string
  ep_name :: string
  exported_symbol :: ExportedSymbol

text \<open>
  A Python \<open>dict\<close> keeps its keys in insertion order: an association list with at most
  one pair for a key.  \<open>dict_set\<close> is \<open>d[k] = v\<close>: an existing key keeps its place, a
  new one goes last.  \<open>defaultdict(set)\<close> reads a missing key as the empty set.
\<close>

type_synonym 'v dict = "(string \<times> 'v) list"

fun dict_set :: "string \<Rightarrow> 'v \<Rightarrow> 'v dict \<Rightarrow> 'v dict" where
  "dict_set k v [] = [(k, v)]"
| "dict_set k v (p # ps) = (if fst p = k then (k, v) # ps else p # dict_set k v ps)"

definition keys :: "'v dict \<Rightarrow> string list" where
  "keys d = map fst d"

definition dd_lookup :: "'a set dict \<Rightarrow> string \<Rightarrow> 'a set" where
  "dd_lookup d k = (case map_of d k of None \<Rightarrow> {} | Some s \<Rightarrow> s)"

definition dd_add :: "string \<Rightarrow> 'a \<Rightarrow> 'a set dict \<Rightarrow> 'a set dict" where
  "dd_add k x d = dict_set k (insert x (dd_lookup d k)) d"

record PublicAPI =
  v1_entrypoints_by_module :: "Entrypoint set dict"
  v2_entrypoints_by_module :: "Entrypoint set dict"
  v1_generated_imports_by_module :: "string set dict"
  v2_generated_imports_by_module :: "string set dict"
  docs_by_module :: "string dict"

section \<open>Building the public API\<close>

definition get_import_path :: "string \<Rightarrow> string list \<Rightarrow> string \<Rightarrow> string" where
  "get_import_path file file_prefixes_to_strip module_prefix =
     (let p1 = fold (\<lambda>prefix p. removeprefix p prefix) file_prefixes_to_strip file;
          p2 = removesuffix p1 ''.py'';
          p3 = removesuffix p2 ''__init__'';
          p4 = strip p3 CHR ''/'';
          p5 = str_replace p4 ''/'' ''.''
      in module_prefix @ p5)"

definition should_skip_file :: "string \<Rightarrow> string list \<Rightarrow> string list \<Rightarrow> string \<Rightarrow> bool" where
  "should_skip_file file file_prefixes_to_strip packages_to_ignore module_prefix =
     (let import_path = get_import_path file file_prefixes_to_strip module_prefix
      in list_ex (\<lambda>package. startswith import_path package) packages_to_ignore)"

text \<open>The body of the loop of \<open>add_exported_symbols\<close>: the entrypoint of one API name.\<close>

definition api_module :: "string \<Rightarrow> string \<Rightarrow> string" where
  "api_module output_package api_name =
     (let index_of_last_dot = str_rfind CHR ''.'' api_name;
          index_of_first_dot = str_find CHR ''.'' api_name
      in if index_of_first_dot + 1 < index_of_last_dot
         then output_package @ ''.'' @ slice api_name (index_of_first_dot + 1) index_of_last_dot
         else output_package)"

definition api_symbol_name :: "string \<Rightarrow> string" where
  "api_symbol_name api_name = slice_from api_name (str_rfind CHR ''.'' api_name + 1)"

definition api_entrypoint :: "string \<Rightarrow> string \<Rightarrow> ExportedSymbol \<Rightarrow> Entrypoint" where
  "api_entrypoint output_package api_name s =
     \<lparr>ep_module = api_module output_package api_name,
      ep_name = api_symbol_name api_name,
      exported_symbol = s\<rparr>"

definition add_exported_symbols ::
  "string \<Rightarrow> string list \<Rightarrow> ExportedSymbol \<Rightarrow> Entrypoint set dict \<Rightarrow> Entrypoint set dict" where
  "add_exported_symbols output_package api_names s entrypoints_by_module =
     fold (\<lambda>api_name d.
             dd_add (api_module output_package api_name)
               (api_entrypoint output_package api_name s) d)
       api_names entrypoints_by_module"

text \<open>
  The loop over \<open>ea.symbols\<close>: a symbol whose file is skipped adds nothing to either map.
\<close>

definition collect_entrypoints ::
  "ExportedSymbol list \<Rightarrow> string list \<Rightarrow> string list \<Rightarrow> string \<Rightarrow> string
     \<Rightarrow> Entrypoint set dict \<times> Entrypoint set dict" where
  "collect_entrypoints symbols file_prefixes_to_strip packages_to_ignore output_package
       module_prefix =
     fold (\<lambda>s (v1, v2).
             if should_skip_file (file_name s) file_prefixes_to_strip packages_to_ignore
                  module_prefix
             then (v1, v2)
             else (add_exported_symbols output_package (v1_apis s) s v1,
                   add_exported_symbols output_package (v2_apis s) s v2))
       symbols ([], [])"

lemma str_rfind_bounds: "- 1 \<le> str_rfind c s \<and> str_rfind c s < int (length s)"
  by (induction s) (auto simp: Let_def)

text \<open>
  The \<open>while\<close> loop of \<open>add_generated_imports\<close> for one module: \<open>i\<close> is computed at
  the head of every round, which is where the source has it (before the loop and at the
  end of its body).  The source's \<open>continue\<close> for a name with no dot is the loop running
  no round.
\<close>

function add_generated_imports_module :: "string \<Rightarrow> string set dict \<Rightarrow> string set dict" where
  "add_generated_imports_module m generated_imports_by_module =
     (let i = str_rfind CHR ''.'' m
      in if i = -1 then generated_imports_by_module
         else (let parent = slice_to m i
               in add_generated_imports_module parent
                    (dd_add parent m generated_imports_by_module)))"
  by pat_completeness auto
termination
proof (relation "measure (\<lambda>(m, g). length m)")
  show "wf (measure (\<lambda>(m, g). length m))" by simp
next
  fix m :: string and g :: "string set dict" and i parent
  assume i: "i = str_rfind CHR ''.'' m" "i \<noteq> - 1" and p: "parent = slice_to m i"
  from str_rfind_bounds [of "CHR ''.''" m] i have "0 \<le> i" "i < int (length m)" by auto
  then have "length parent < length m"
    using p by (simp add: slice_to_def slice_index_def)
  then show "((parent, dd_add parent m g), (m, g)) \<in> measure (\<lambda>(m, g). length m)"
    by simp
qed

declare add_generated_imports_module.simps [simp del]

definition add_generated_imports :: "'a dict \<Rightarrow> string set dict \<Rightarrow> string set dict" where
  "add_generated_imports entrypoints_by_module generated_imports_by_module =
     fold add_generated_imports_module (keys entrypoints_by_module)
       generated_imports_by_module"

datatype error = DocExportedTwiceError string | KeyError string

definition doc_exported_twice_message :: "ExportedDoc \<Rightarrow> string \<Rightarrow> string" where
  "doc_exported_twice_message d m =
     ''Docstring at '' @ doc_file_name d @ '':'' @ str_int (doc_line_no d)
       @ '' is registered for '' @ m @ '','' @ '' which already has a registered docstring.''"

fun register_doc :: "ExportedDoc \<Rightarrow> string list \<Rightarrow> string dict \<Rightarrow> error + string dict" where
  "register_doc d [] docs = Inr docs"
| "register_doc d (m # ms) docs =
     (if m \<in> set (keys docs)
      then Inl (DocExportedTwiceError (doc_exported_twice_message d m))
      else register_doc d ms (dict_set m (docstring d) docs))"

fun register_docs :: "ExportedDoc list \<Rightarrow> string dict \<Rightarrow> error + string dict" where
  "register_docs [] docs = Inr docs"
| "register_docs (d # ds) docs =
     (case register_doc d (modules d) docs of
        Inl e \<Rightarrow> Inl e
      | Inr docs' \<Rightarrow> register_docs ds docs')"

definition get_public_api ::
  "ExportedSymbol list \<Rightarrow> ExportedDoc list \<Rightarrow> string list \<Rightarrow> string list \<Rightarrow> string \<Rightarrow> string
     \<Rightarrow> error + PublicAPI" where
  "get_public_api symbols docs file_prefixes_to_strip packages_to_ignore output_package
       module_prefix =
     (let (v1, v2) = collect_entrypoints symbols file_prefixes_to_strip packages_to_ignore
                       output_package module_prefix;
          g1 = add_generated_imports v1 [];
          g2 = add_generated_imports v2 []
      in case register_docs docs [] of
           Inl e \<Rightarrow> Inl e
         | Inr dm \<Rightarrow>
             Inr \<lparr>v1_entrypoints_by_module = v1, v2_entrypoints_by_module = v2,
                  v1_generated_imports_by_module = g1, v2_generated_imports_by_module = g2,
                  docs_by_module = dm\<rparr>)"

text \<open>\<open>c\<close> is an immediate child of the module \<open>p\<close>: one more dotted segment.\<close>

definition child_of :: "string \<Rightarrow> string \<Rightarrow> bool" where
  "child_of c p = (\<exists>seg. c = p @ ''.'' @ seg \<and> CHR ''.'' \<notin> set seg)"

text \<open>Every entrypoint stored in a map, under whatever key.\<close>

definition entrypoints_of :: "Entrypoint set dict \<Rightarrow> Entrypoint set" where
  "entrypoints_of d = \<Union> (snd ` set d)"

section \<open>Rendering\<close>

abbreviation nl :: string where "nl \<equiv> [CHR 0x0A]"
abbreviation sq :: string where "sq \<equiv> [CHR 0x27]"
abbreviation dq :: string where "dq \<equiv> [CHR 0x22]"

text \<open>The three module-level templates, each applied to its \<open>%s\<close> arguments.\<close>

definition GENERATED_FILE_HEADER :: "string \<Rightarrow> string" where
  "GENERATED_FILE_HEADER doc =
     ''# This file is MACHINE GENERATED! Do not edit.'' @ nl
     @ ''# Generated by: tensorflow/python/tools/api/generator2/generator/generator.py script.'' @ nl
     @ dq @ dq @ dq @ doc @ nl
     @ dq @ dq @ dq @ nl
     @ nl
     @ ''import sys as _sys'' @ nl
     @ nl"

definition LAZY_LOADING_MODULE_TEXT_TEMPLATE :: "string \<Rightarrow> string" where
  "LAZY_LOADING_MODULE_TEXT_TEMPLATE module_imports =
     nl
     @ ''# Inform pytype that this module is dynamically populated (b/111239204).'' @ nl
     @ ''_HAS_DYNAMIC_ATTRIBUTES = True'' @ nl
     @ ''_PUBLIC_APIS = {'' @ nl
     @ module_imports @ nl
     @ ''}'' @ nl"

definition DEPRECATION_FOOTER :: "string \<Rightarrow> string \<Rightarrow> string \<Rightarrow> string \<Rightarrow> string" where
  "DEPRECATION_FOOTER module_name public_apis_name deprecated has_lite =
     nl
     @ ''from tensorflow.python.util import module_wrapper as _module_wrapper'' @ nl
     @ nl
     @ ''if not isinstance(_sys.modules[__name__], _module_wrapper.TFModuleWrapper):'' @ nl
     @ ''  _sys.modules[__name__] = _module_wrapper.TFModuleWrapper('' @ nl
     @ ''      _sys.modules[__name__], '' @ dq @ module_name @ dq
     @ '', public_apis='' @ public_apis_name @ '', deprecation='' @ deprecated @ '','' @ nl
     @ ''      has_lite='' @ has_lite @ '')'' @ nl"

definition get_import :: "Entrypoint \<Rightarrow> string list \<Rightarrow> string \<Rightarrow> bool \<Rightarrow> string" where
  "get_import self file_prefixes_to_strip module_prefix use_lazy_loading =
     (let module_import_path =
            get_import_path (file_name (exported_symbol self)) file_prefixes_to_strip
              module_prefix;
          sym = symbol_name (exported_symbol self);
          alias = (if ep_name self \<noteq> sym then '' as '' @ ep_name self else '''')
      in if \<not> use_lazy_loading
         then ''from '' @ module_import_path @ '' import'' @ '' '' @ sym @ alias
                @ '' # line:'' @ '' '' @ str_int (line_no (exported_symbol self))
         else ''  '' @ sq @ ep_name self @ sq @ '': ('' @ sq @ module_import_path @ sq @ '',''
                @ '' '' @ sq @ sym @ sq @ ''), # line:'' @ '' ''
                @ str_int (line_no (exported_symbol self)))"

definition get_module_docstring :: "string dict \<Rightarrow> string \<Rightarrow> string" where
  "get_module_docstring docs m =
     (case map_of docs m of
        Some d \<Rightarrow> d
      | None \<Rightarrow> ''Public API for '' @ str_replace m ''tensorflow'' ''tf'' @ '' namespace'')"

text \<open>
  \<open>subpackage_rewrite\<close> is an \<open>Optional[str]\<close>, tested for truth: \<open>None\<close> and the empty
  string leave the import as it is.
\<close>

definition rewrite_import :: "string \<Rightarrow> string option \<Rightarrow> string \<Rightarrow> string" where
  "rewrite_import output_package subpackage_rewrite imp =
     (case subpackage_rewrite of
        None \<Rightarrow> imp
      | Some r \<Rightarrow> if r = [] then imp else str_replace imp output_package r)"

definition generated_import_line :: "bool \<Rightarrow> string \<Rightarrow> string" where
  "generated_import_line use_lazy_loading imp =
     (let last_dot = str_rfind CHR ''.'' imp
      in if use_lazy_loading
         then ''  '' @ sq @ slice_from imp (last_dot + 1) @ sq @ '': ('' @ sq @ sq @ '', ''
                @ sq @ imp @ sq @ ''),''
         else ''from '' @ slice_to imp last_dot @ '' import '' @ slice_from imp (last_dot + 1))"

text \<open>
  A Python \<open>set\<close> is a HOL set.  The order in which a \<open>for\<close> loop or \<open>list(...)\<close> runs
  through a set is not a function of the program's input (it follows the hashes of the
  elements, which for strings change from one interpreter process to the next), so the
  functions that iterate over a set take the iteration order as a parameter:
  \<open>iter_e\<close> for sets of entrypoints and \<open>iter_s\<close> for sets of strings, each giving the
  elements of the set in the order the run visits them.

  \<open>imports_lines\<close> is the list of lines that \<open>_get_imports_for_module\<close> appends to
  \<open>content\<close>, each followed there by a newline; \<open>sort_key\<close> is the stable \<open>sorted\<close>.
\<close>

definition imports_lines ::
  "(Entrypoint set \<Rightarrow> Entrypoint list) \<Rightarrow> (string set \<Rightarrow> string list) \<Rightarrow> string \<Rightarrow> string
     \<Rightarrow> Entrypoint set dict \<Rightarrow> string set dict \<Rightarrow> string list \<Rightarrow> string \<Rightarrow> bool
     \<Rightarrow> string option \<Rightarrow> string list" where
  "imports_lines iter_e iter_s m output_package symbols_by_module generated_imports_by_module
       file_prefixes_to_strip module_prefix use_lazy_loading subpackage_rewrite =
     (let symbol_imports =
            sort_key (\<lambda>s. file_name (exported_symbol s)) (iter_e (dd_lookup symbols_by_module m))
      in map (\<lambda>imp. generated_import_line use_lazy_loading
                      (rewrite_import output_package subpackage_rewrite imp))
           (iter_s (dd_lookup generated_imports_by_module m))
         @ map (\<lambda>s. get_import s file_prefixes_to_strip module_prefix use_lazy_loading)
             symbol_imports)"

definition get_imports_for_module ::
  "(Entrypoint set \<Rightarrow> Entrypoint list) \<Rightarrow> (string set \<Rightarrow> string list) \<Rightarrow> string \<Rightarrow> string
     \<Rightarrow> Entrypoint set dict \<Rightarrow> string set dict \<Rightarrow> string list \<Rightarrow> string \<Rightarrow> bool
     \<Rightarrow> string option \<Rightarrow> string" where
  "get_imports_for_module iter_e iter_s m output_package symbols_by_module
       generated_imports_by_module file_prefixes_to_strip module_prefix use_lazy_loading
       subpackage_rewrite =
     concat (map (\<lambda>line. line @ nl)
       (imports_lines iter_e iter_s m output_package symbols_by_module
          generated_imports_by_module file_prefixes_to_strip module_prefix use_lazy_loading
          subpackage_rewrite))"

definition get_module_wrapper ::
  "string \<Rightarrow> string \<Rightarrow> string \<Rightarrow> int \<Rightarrow> Entrypoint set dict \<Rightarrow> bool \<Rightarrow> string" where
  "get_module_wrapper m output_dir output_package api_version symbols_by_module
       use_lazy_loading =
     (if api_version \<noteq> 1 \<and> \<not> use_lazy_loading then ''''
      else
        (let deprecated =
               (if api_version = 1 \<and> \<not> endswith (strip output_dir CHR ''/'') ''compat/v1''
                then ''True'' else ''False'');
             has_lite =
               (if ''lite'' \<in> set (keys symbols_by_module) \<and> use_lazy_loading
                then ''True'' else ''False'');
             public_apis_name = (if use_lazy_loading then ''_PUBLIC_APIS'' else ''None'')
         in DEPRECATION_FOOTER (strip (removeprefix m output_package) CHR ''.'')
              public_apis_name deprecated has_lite))"

section \<open>What a rendered line exposes\<close>

text \<open>
  \<open>split_on c s\<close> is \<open>s.split(c)\<close>.  \<open>import_binds\<close> reads an eager line as Python
  does: the statement \<open>from M import S\<close> binds \<open>S\<close> and \<open>from M import S as A\<close> binds
  \<open>A\<close>; the words after them are a comment.  \<open>table_key\<close> reads a lazy line: the key of
  the entry \<open>  'K': (...),\<close> of the \<open>_PUBLIC_APIS\<close> table.
\<close>

fun split_on :: "char \<Rightarrow> string \<Rightarrow> string list" where
  "split_on c [] = [[]]"
| "split_on c (x # xs) =
     (if x = c then [] # split_on c xs
      else (case split_on c xs of [] \<Rightarrow> [[x]] | w # ws \<Rightarrow> (x # w) # ws))"

definition import_binds :: "string \<Rightarrow> string option" where
  "import_binds line =
     (let ws = split_on CHR '' '' line
      in if 4 \<le> length ws \<and> ws ! 0 = ''from'' \<and> ws ! 2 = ''import''
         then Some (if 6 \<le> length ws \<and> ws ! 4 = ''as'' then ws ! 5 else ws ! 3)
         else None)"

definition table_key :: "string \<Rightarrow> string option" where
  "table_key line =
     (if startswith line (''  '' @ sq)
      then Some (takeWhile (\<lambda>c. c \<noteq> CHR 0x27) (drop 3 line))
      else None)"

text \<open>A name with no space and no quote in it.\<close>

definition plain :: "string \<Rightarrow> bool" where
  "plain s = (CHR '' '' \<notin> set s \<and> CHR 0x27 \<notin> set s)"

text \<open>The last dotted segment of a module name: \<open>imp[imp.rfind('.') + 1:]\<close>.\<close>

definition last_segment :: "string \<Rightarrow> string" where
  "last_segment imp = slice_from imp (str_rfind CHR ''.'' imp + 1)"

section \<open>Writing the files\<close>

text \<open>\<open>os.path.join\<close> of two POSIX paths, and \<open>sep.join(xs)\<close>.\<close>

definition os_path_join :: "string \<Rightarrow> string \<Rightarrow> string" where
  "os_path_join a b =
     (if startswith b ''/'' then b
      else if a = [] \<or> endswith a ''/'' then a @ b
      else a @ ''/'' @ b)"

fun join_str :: "string \<Rightarrow> string list \<Rightarrow> string" where
  "join_str sep [] = []"
| "join_str sep [x] = x"
| "join_str sep (x # y # ys) = x @ sep @ join_str sep (y # ys)"

definition root_module_footer :: "string list \<Rightarrow> string" where
  "root_module_footer underscore_elements =
     nl
     @ ''_names_with_underscore = [''
         @ join_str '', '' (sort (map (\<lambda>s. sq @ s @ sq) underscore_elements)) @ '']'' @ nl
     @ ''__all__ = [_s for _s in dir() if not _s.startswith('' @ sq @ ''_'' @ sq @ '')]'' @ nl
     @ ''__all__.extend([_s for _s in _names_with_underscore])'' @ nl
     @ ''          ''"

definition init_file_path :: "string \<Rightarrow> string \<Rightarrow> string \<Rightarrow> string \<Rightarrow> string" where
  "init_file_path output_dir output_package root_file_name m =
     (let module_relative_to_package = slice_from m (int (length output_package) + 1);
          module_path =
            os_path_join output_dir (str_replace module_relative_to_package ''.'' ''/'')
      in os_path_join module_path
           (if module_relative_to_package = [] then root_file_name else ''__init__.py''))"

text \<open>
  The text written to the file of one module.  \<open>root_template\<close> is \<open>None\<close> when
  \<open>root_template_path\<close> is empty and otherwise holds what reading that file returns.
\<close>

definition init_file_content ::
  "(Entrypoint set \<Rightarrow> Entrypoint list) \<Rightarrow> (string set \<Rightarrow> string list) \<Rightarrow> string \<Rightarrow> string
     \<Rightarrow> string \<Rightarrow> int \<Rightarrow> Entrypoint set dict \<Rightarrow> string set dict \<Rightarrow> string dict
     \<Rightarrow> string option \<Rightarrow> string list \<Rightarrow> bool \<Rightarrow> string \<Rightarrow> string option \<Rightarrow> string" where
  "init_file_content iter_e iter_s m output_dir output_package api_version symbols_by_module
       generated_imports_by_module docs root_template file_prefixes_to_strip
       use_lazy_loading module_prefix subpackage_rewrite =
     (let imports =
            get_imports_for_module iter_e iter_s m output_package symbols_by_module
              generated_imports_by_module file_prefixes_to_strip module_prefix
              use_lazy_loading subpackage_rewrite;
          module_imports =
            (if use_lazy_loading then LAZY_LOADING_MODULE_TEXT_TEMPLATE imports else imports);
          wrapper =
            get_module_wrapper m output_dir output_package api_version symbols_by_module
              use_lazy_loading
      in case (if m = output_package then root_template else None) of
           Some template \<Rightarrow>
             (let content1 = str_replace template ''# API IMPORTS PLACEHOLDER'' module_imports;
                  underscore_elements =
                    map ep_name
                      (filter (\<lambda>s. startswith (ep_name s) ''_'')
                         (iter_e (dd_lookup symbols_by_module m)))
                    @ filter (\<lambda>module_name. startswith module_name ''_'')
                        (map last_segment (iter_s (dd_lookup generated_imports_by_module m)));
                  content2 =
                    str_replace content1 ''# __all__ PLACEHOLDER''
                      (root_module_footer underscore_elements)
              in str_replace content2 ''# WRAPPER_PLACEHOLDER'' wrapper)
         | None \<Rightarrow>
             GENERATED_FILE_HEADER (get_module_docstring docs m) @ module_imports @ wrapper)"

section \<open>The shared import sets\<close>

text \<open>
  \<open>gen_nested_compat_files\<close> copies the map of generated imports with \<open>dict.copy\<close>: the
  copy has its own keys and shares the sets, and the function mutates one of them in
  place.  So the sets of that map live in a store, and the map holds their addresses.
  \<open>dd_ref\<close> is \<open>d[k]\<close> on such a \<open>defaultdict(set)\<close>: a missing key gets a new empty set.
  \<open>view\<close> reads the map with the sets in place of their addresses.

  The entrypoint sets are never mutated once \<open>get_public_api\<close> has returned, so the maps
  of entrypoints hold them as values; \<open>dd_touch\<close> is the lookup \<open>d[k]\<close> on one, which
  adds a missing key.
\<close>

record heap =
  cell :: "nat \<Rightarrow> string set"
  fresh :: nat

type_synonym ref_dict = "nat dict"

definition dd_ref :: "heap \<Rightarrow> ref_dict \<Rightarrow> string \<Rightarrow> nat \<times> heap \<times> ref_dict" where
  "dd_ref h d k =
     (case map_of d k of
        Some a \<Rightarrow> (a, h, d)
      | None \<Rightarrow>
          (fresh h, h\<lparr>cell := (cell h)(fresh h := {}), fresh := Suc (fresh h)\<rparr>,
           d @ [(k, fresh h)]))"

definition set_cell :: "heap \<Rightarrow> nat \<Rightarrow> string set \<Rightarrow> heap" where
  "set_cell h a s = h\<lparr>cell := (cell h)(a := s)\<rparr>"

definition view :: "heap \<Rightarrow> ref_dict \<Rightarrow> string set dict" where
  "view h d = map (\<lambda>(k, a). (k, cell h a)) d"

definition dd_touch :: "'a set dict \<Rightarrow> string \<Rightarrow> 'a set dict" where
  "dd_touch d k = (if k \<in> set (keys d) then d else d @ [(k, {})])"

text \<open>
  \<open>_gen_init_files\<close>.  A written file is the module, its path and its text.  The two
  lookups of \<open>_get_imports_for_module\<close> add the module to either map when it is missing.
\<close>

type_synonym written_file = "string \<times> string \<times> string"

definition gen_init_file ::
  "(Entrypoint set \<Rightarrow> Entrypoint list) \<Rightarrow> (string set \<Rightarrow> string list) \<Rightarrow> string \<Rightarrow> string
     \<Rightarrow> int \<Rightarrow> string dict \<Rightarrow> string option \<Rightarrow> string list \<Rightarrow> bool \<Rightarrow> string
     \<Rightarrow> string option \<Rightarrow> string \<Rightarrow> string
     \<Rightarrow> heap \<times> Entrypoint set dict \<times> ref_dict \<times> written_file list
     \<Rightarrow> heap \<times> Entrypoint set dict \<times> ref_dict \<times> written_file list" where
  "gen_init_file iter_e iter_s output_dir output_package api_version docs root_template
       file_prefixes_to_strip use_lazy_loading module_prefix subpackage_rewrite
       root_file_name m st =
     (case st of (h, symbols_by_module, generated_imports_by_module, files) \<Rightarrow>
        if length m < length output_package then st
        else
          (let sbm = dd_touch symbols_by_module m;
               (a, h', gim) = dd_ref h generated_imports_by_module m;
               file =
                 (m,
                  init_file_path output_dir output_package root_file_name m,
                  init_file_content iter_e iter_s m output_dir output_package api_version sbm
                    (view h' gim) docs root_template file_prefixes_to_strip
                    use_lazy_loading module_prefix subpackage_rewrite)
           in (h', sbm, gim, files @ [file])))"

definition gen_init_files ::
  "(Entrypoint set \<Rightarrow> Entrypoint list) \<Rightarrow> (string set \<Rightarrow> string list) \<Rightarrow> string \<Rightarrow> string
     \<Rightarrow> int \<Rightarrow> heap \<Rightarrow> Entrypoint set dict \<Rightarrow> ref_dict \<Rightarrow> string dict \<Rightarrow> string option
     \<Rightarrow> string list \<Rightarrow> bool \<Rightarrow> string \<Rightarrow> string option \<Rightarrow> string
     \<Rightarrow> heap \<times> Entrypoint set dict \<times> ref_dict \<times> written_file list" where
  "gen_init_files iter_e iter_s output_dir output_package api_version h symbols_by_module
       generated_imports_by_module docs root_template file_prefixes_to_strip
       use_lazy_loading module_prefix subpackage_rewrite root_file_name =
     (let modules_to_write =
            set (keys symbols_by_module) \<union> set (keys generated_imports_by_module)
      in fold (gen_init_file iter_e iter_s output_dir output_package api_version docs
                 root_template file_prefixes_to_strip use_lazy_loading module_prefix
                 subpackage_rewrite root_file_name)
           (iter_s modules_to_write)
           (h, symbols_by_module, generated_imports_by_module, []))"

section \<open>Nested compat files\<close>

definition compat_version_package :: "string \<Rightarrow> int \<Rightarrow> string" where
  "compat_version_package output_package compat_version =
     output_package @ ''.compat.v'' @ str_int compat_version"

text \<open>
  The two loops over \<open>compat_versions\<close>: \<open>set.remove\<close> raises \<open>KeyError\<close> on an element
  that is not in the set, \<open>set.add\<close> never fails.
\<close>

fun remove_compat_edges ::
  "heap \<Rightarrow> ref_dict \<Rightarrow> string \<Rightarrow> int list \<Rightarrow> error + heap \<times> ref_dict" where
  "remove_compat_edges h d output_package [] = Inr (h, d)"
| "remove_compat_edges h d output_package (compat_version # vs) =
     (case dd_ref h d (output_package @ ''.compat'') of (a, h', d') \<Rightarrow>
        let edge = compat_version_package output_package compat_version
        in if edge \<in> cell h' a
           then remove_compat_edges (set_cell h' a (cell h' a - {edge})) d' output_package vs
           else Inl (KeyError edge))"

fun add_compat_edges :: "heap \<Rightarrow> ref_dict \<Rightarrow> string \<Rightarrow> int list \<Rightarrow> heap \<times> ref_dict" where
  "add_compat_edges h d output_package [] = (h, d)"
| "add_compat_edges h d output_package (compat_version # vs) =
     (case dd_ref h d (output_package @ ''.compat'') of (a, h', d') \<Rightarrow>
        let edge = compat_version_package output_package compat_version
        in add_compat_edges (set_cell h' a (insert edge (cell h' a))) d' output_package vs)"

definition dict_del :: "string \<Rightarrow> 'v dict \<Rightarrow> 'v dict" where
  "dict_del k d = filter (\<lambda>p. fst p \<noteq> k) d"

text \<open>
  \<open>gen_nested_compat_files\<close> returns the store as it leaves it and the files it wrote;
  the two copies are local to it.  The caller's maps are the arguments, unchanged as
  values: what the caller can see of a mutation is in the store.
\<close>

text \<open>
  The copy of the entrypoint map after the \<open>del\<close> loop: every key but the root package and
  the compat module is removed.
\<close>

definition nested_compat_symbols :: "string \<Rightarrow> 'v dict \<Rightarrow> 'v dict" where
  "nested_compat_symbols output_package symbols_by_module =
     (let compat_module = output_package @ ''.compat'';
          modules_to_remove =
            filter (\<lambda>m. m \<noteq> output_package \<and> m \<noteq> compat_module) (keys symbols_by_module)
      in fold dict_del modules_to_remove symbols_by_module)"

definition gen_nested_compat_files ::
  "(Entrypoint set \<Rightarrow> Entrypoint list) \<Rightarrow> (string set \<Rightarrow> string list) \<Rightarrow> string \<Rightarrow> string
     \<Rightarrow> int \<Rightarrow> heap \<Rightarrow> Entrypoint set dict \<Rightarrow> ref_dict \<Rightarrow> string dict \<Rightarrow> string option
     \<Rightarrow> string list \<Rightarrow> bool \<Rightarrow> int list \<Rightarrow> string
     \<Rightarrow> error + heap \<times> written_file list" where
  "gen_nested_compat_files iter_e iter_s output_dir output_package api_version h
       symbols_by_module generated_imports_by_module docs root_template
       file_prefixes_to_strip use_lazy_loading compat_versions module_prefix =
     (let compat_module = output_package @ ''.compat'';
          nested_compat_symbols_by_module =
            nested_compat_symbols output_package symbols_by_module
      in case remove_compat_edges h generated_imports_by_module output_package
                compat_versions of
           Inl e \<Rightarrow> Inl e
         | Inr (h1, nested_generated_imports_by_module) \<Rightarrow>
             (case gen_init_files iter_e iter_s output_dir output_package api_version h1
                     nested_compat_symbols_by_module nested_generated_imports_by_module docs
                     root_template file_prefixes_to_strip use_lazy_loading module_prefix
                     (Some (compat_module @ ''.v'' @ str_int api_version)) ''__init__.py'' of
                (h2, sbm2, gim2, files) \<Rightarrow>
                  (case add_compat_edges h2 gim2 output_package compat_versions of
                     (h3, gim3) \<Rightarrow> Inr (h3, files))))"

text \<open>
  A store \<open>h'\<close> extends \<open>h\<close> when every set that \<open>h\<close> has allocated is the same in \<open>h'\<close>,
  and a map \<open>d'\<close> extends \<open>d\<close> when every key of \<open>d\<close> refers to the same set in \<open>d'\<close>.
\<close>

definition heap_extends :: "heap \<Rightarrow> heap \<Rightarrow> bool" where
  "heap_extends h h' = (fresh h \<le> fresh h' \<and> (\<forall>a<fresh h. cell h' a = cell h a))"

definition dict_extends :: "ref_dict \<Rightarrow> ref_dict \<Rightarrow> bool" where
  "dict_extends d d' = (\<forall>k a. map_of d k = Some a \<longrightarrow> map_of d' k = Some a)"

text \<open>
  The loop of \<open>gen_public_api\<close> that adds, for every requested compat version, the edge
  from the compat module to the versioned package to the version-2 and to the version-1
  map of generated imports.
\<close>

fun inject_compat_edges ::
  "heap \<Rightarrow> ref_dict \<Rightarrow> ref_dict \<Rightarrow> string \<Rightarrow> int list \<Rightarrow> heap \<times> ref_dict \<times> ref_dict" where
  "inject_compat_edges h v2 v1 output_package [] = (h, v2, v1)"
| "inject_compat_edges h v2 v1 output_package (compat_version # vs) =
     (let compat_package = output_package @ ''.compat'';
          edge = compat_version_package output_package compat_version
      in case dd_ref h v2 compat_package of (a2, h2, v2') \<Rightarrow>
           (case dd_ref (set_cell h2 a2 (insert edge (cell h2 a2))) v1 compat_package of
              (a1, h1, v1') \<Rightarrow>
                inject_compat_edges (set_cell h1 a1 (insert edge (cell h1 a1))) v2' v1'
                  output_package vs))"

text \<open>The references of a map are allocated in the store.\<close>

definition allocated :: "heap \<Rightarrow> ref_dict \<Rightarrow> bool" where
  "allocated h d = (\<forall>k a. map_of d k = Some a \<longrightarrow> a < fresh h)"

section \<open>Properties of the aggregation\<close>

lemma str_find_append: "c \<notin> set p \<Longrightarrow> str_find c (p @ c # r) = int (length p)"
  by (induction p) (auto simp: Let_def)

lemma str_find_none: "c \<notin> set p \<Longrightarrow> str_find c p = -1"
  by (induction p) (auto simp: Let_def)

lemma str_rfind_none: "c \<notin> set p \<Longrightarrow> str_rfind c p = -1"
  by (induction p) (auto simp: Let_def)

lemma str_rfind_append: "c \<notin> set q \<Longrightarrow> str_rfind c (r @ c # q) = int (length r)"
  by (induction r) (auto simp: Let_def str_rfind_none)

lemma nat_int_Suc [simp]: "nat (int n + 1) = Suc n" "nat (1 + int n) = Suc n"
  "nat (1 + (int a + int b)) = Suc (a + b)"
  by simp_all

lemma api_module_two_dots:
  assumes "CHR ''.'' \<notin> set p" "CHR ''.'' \<notin> set q"
  shows "api_module root (p @ ''.'' @ mid @ ''.'' @ q) = (if mid = [] then root else root @ ''.'' @ mid)"
proof -
  have f: "str_find CHR ''.'' (p @ ''.'' @ mid @ ''.'' @ q) = int (length p)"
    using str_find_append [OF assms(1)] by simp
  have r: "str_rfind CHR ''.'' (p @ ''.'' @ mid @ ''.'' @ q) = int (length p + 1 + length mid)"
    using str_rfind_append [OF assms(2), of "p @ ''.'' @ mid"] by simp
  show ?thesis
    unfolding api_module_def f r
    by (auto simp: Let_def slice_def slice_index_def)
qed

lemma api_module_one_dot:
  assumes "CHR ''.'' \<notin> set p" "CHR ''.'' \<notin> set q"
  shows "api_module root (p @ ''.'' @ q) = root"
proof -
  have f: "str_find CHR ''.'' (p @ ''.'' @ q) = int (length p)"
    using str_find_append [OF assms(1)] by simp
  have r: "str_rfind CHR ''.'' (p @ ''.'' @ q) = int (length p)"
    using str_rfind_append [OF assms(2), of "p"] by simp
  show ?thesis
    unfolding api_module_def f r by (simp add: Let_def)
qed

lemma api_module_no_dot:
  assumes "CHR ''.'' \<notin> set n"
  shows "api_module root n = root"
  unfolding api_module_def using str_find_none [OF assms] str_rfind_none [OF assms]
  by (simp add: Let_def)

lemma api_symbol_name_dot:
  assumes "CHR ''.'' \<notin> set q"
  shows "api_symbol_name (r @ ''.'' @ q) = q"
  using str_rfind_append [OF assms, of r]
  by (simp add: api_symbol_name_def slice_from_def slice_index_def)

lemma api_symbol_name_no_dot:
  assumes "CHR ''.'' \<notin> set n"
  shows "api_symbol_name n = n"
  using str_rfind_none [OF assms]
  by (simp add: api_symbol_name_def slice_from_def slice_index_def)

lemma map_of_dict_set_same: "map_of (dict_set k v d) k = Some v"
  by (induction d) simp_all

lemma map_of_dict_set_other: "k' \<noteq> k \<Longrightarrow> map_of (dict_set k v d) k' = map_of d k'"
  by (induction d) simp_all

lemma dd_lookup_dict_set: "dd_lookup (dict_set k v d) k' = (if k' = k then v else dd_lookup d k')"
  by (simp add: dd_lookup_def map_of_dict_set_same map_of_dict_set_other)

lemma dd_lookup_dd_add: "dd_lookup (dd_add k x d) k' = (if k' = k then insert x (dd_lookup d k) else dd_lookup d k')"
  by (simp add: dd_add_def dd_lookup_dict_set)

lemma add_exported_symbols_Nil: "add_exported_symbols root [] s d = d"
  by (simp add: add_exported_symbols_def)

lemma add_exported_symbols_Cons:
  "add_exported_symbols root (n # names) s d =
     add_exported_symbols root names s (dd_add (api_module root n) (api_entrypoint root n s) d)"
  by (simp add: add_exported_symbols_def)

lemma add_exported_symbols_lookup:
  "e \<in> dd_lookup (add_exported_symbols root names s d) m \<longleftrightarrow>
     e \<in> dd_lookup d m \<or> (\<exists>n\<in>set names. e = api_entrypoint root n s \<and> api_module root n = m)"
proof (induction names arbitrary: d)
  case Nil
  show ?case by (simp add: add_exported_symbols_Nil)
next
  case (Cons n names)
  show ?case
    unfolding add_exported_symbols_Cons Cons.IH dd_lookup_dd_add
    by (cases "m = api_module root n") auto
qed


text \<open>
  Claim C6.  The entrypoint of a public API name is determined by the name: with
  \<open>p\<close> the part before the first dot and \<open>q\<close> the part after the last one, the name
  \<open>p.mid.q\<close> goes to the module \<open>root.mid\<close> when \<open>mid\<close> is not empty and to the root
  otherwise; a name with one dot or none goes to the root; the exposed name is the part
  after the last dot (the whole name when it has none).  These are the entrypoints that
  \<open>add_exported_symbols\<close> stores, each under its own module.
\<close>

theorem entrypoint_module_from_name:
  "(\<forall>p mid q. CHR ''.'' \<notin> set p \<and> CHR ''.'' \<notin> set q \<longrightarrow>
      api_entrypoint root (p @ ''.'' @ mid @ ''.'' @ q) s =
        \<lparr>ep_module = (if mid = [] then root else root @ ''.'' @ mid), ep_name = q,
         exported_symbol = s\<rparr>)
   \<and> (\<forall>p q. CHR ''.'' \<notin> set p \<and> CHR ''.'' \<notin> set q \<longrightarrow>
      api_entrypoint root (p @ ''.'' @ q) s =
        \<lparr>ep_module = root, ep_name = q, exported_symbol = s\<rparr>)
   \<and> (\<forall>n. CHR ''.'' \<notin> set n \<longrightarrow>
      api_entrypoint root n s = \<lparr>ep_module = root, ep_name = n, exported_symbol = s\<rparr>)
   \<and> (\<forall>e m. e \<in> dd_lookup (add_exported_symbols root names s d) m \<longleftrightarrow>
      e \<in> dd_lookup d m \<or>
      (\<exists>n\<in>set names. e = api_entrypoint root n s \<and> ep_module e = m))"
proof (intro conjI allI impI)
  fix p mid q
  assume "CHR ''.'' \<notin> set p \<and> CHR ''.'' \<notin> set q"
  then show "api_entrypoint root (p @ ''.'' @ mid @ ''.'' @ q) s =
        \<lparr>ep_module = (if mid = [] then root else root @ ''.'' @ mid), ep_name = q,
         exported_symbol = s\<rparr>"
    using api_module_two_dots [of p q root mid] api_symbol_name_dot [of q "p @ ''.'' @ mid"]
    by (simp add: api_entrypoint_def)
next
  fix p q
  assume "CHR ''.'' \<notin> set p \<and> CHR ''.'' \<notin> set q"
  then show "api_entrypoint root (p @ ''.'' @ q) s =
        \<lparr>ep_module = root, ep_name = q, exported_symbol = s\<rparr>"
    using api_module_one_dot [of p q root] api_symbol_name_dot [of q p]
    by (simp add: api_entrypoint_def)
next
  fix n
  assume "CHR ''.'' \<notin> set n"
  then show "api_entrypoint root n s = \<lparr>ep_module = root, ep_name = n, exported_symbol = s\<rparr>"
    by (simp add: api_entrypoint_def api_module_no_dot api_symbol_name_no_dot)
next
  fix e m
  show "e \<in> dd_lookup (add_exported_symbols root names s d) m \<longleftrightarrow>
      e \<in> dd_lookup d m \<or>
      (\<exists>n\<in>set names. e = api_entrypoint root n s \<and> ep_module e = m)"
    unfolding add_exported_symbols_lookup
    by (metis Entrypoint.select_convs(1) api_entrypoint_def)
qed

theorem entrypoint_module_from_name_witness:
  "CHR ''.'' \<notin> set ''v2'' \<and> CHR ''.'' \<notin> set ''GFile''
   \<and> api_entrypoint ''tf'' ''v2.io.gfile.GFile''
         \<lparr>file_name = ''tensorflow/python/lib/io/file_io.py'', line_no = 41,
          symbol_name = ''FileIO'', v1_apis = [], v2_apis = [''v2.io.gfile.GFile'']\<rparr> =
       \<lparr>ep_module = ''tf.io.gfile'', ep_name = ''GFile'',
        exported_symbol =
          \<lparr>file_name = ''tensorflow/python/lib/io/file_io.py'', line_no = 41,
           symbol_name = ''FileIO'', v1_apis = [], v2_apis = [''v2.io.gfile.GFile'']\<rparr>\<rparr>"
  using entrypoint_module_from_name [THEN conjunct1, rule_format, of "''v2''" "''GFile''" "''tf''" "''io.gfile''"]
  by simp


lemma add_generated_imports_module_no_dot:
  "CHR ''.'' \<notin> set m \<Longrightarrow> add_generated_imports_module m g = g"
  by (subst add_generated_imports_module.simps) (simp add: str_rfind_none)

lemma add_generated_imports_module_dot:
  assumes "CHR ''.'' \<notin> set suf"
  shows "add_generated_imports_module (pre @ ''.'' @ suf) g =
           add_generated_imports_module pre (dd_add pre (pre @ ''.'' @ suf) g)"
proof -
  show ?thesis
    by (subst add_generated_imports_module.simps)
       (simp add: str_rfind_append [OF assms] slice_to_def slice_index_def Let_def)
qed

lemma add_generated_imports_module_mono:
  "x \<in> dd_lookup g k \<Longrightarrow> x \<in> dd_lookup (add_generated_imports_module m g) k"
proof (induction m arbitrary: g rule: length_induct)
  case (1 m)
  show ?case
  proof (cases "CHR ''.'' \<in> set m")
    case False
    then show ?thesis using "1.prems" by (simp add: add_generated_imports_module_no_dot)
  next
    case True
    then obtain pre suf where m: "m = pre @ CHR ''.'' # suf" and suf: "CHR ''.'' \<notin> set suf"
      using split_list_last by fastforce
    have "x \<in> dd_lookup (dd_add pre m g) k"
      using "1.prems" by (cases "k = pre") (simp_all add: dd_lookup_dd_add)
    moreover have "length pre < length m" by (simp add: m)
    ultimately have "x \<in> dd_lookup (add_generated_imports_module pre (dd_add pre m g)) k"
      using "1.IH" by blast
    then show ?thesis
      using add_generated_imports_module_dot [OF suf, of pre g] by (simp add: m)
  qed
qed


lemma add_generated_imports_module_child:
  assumes "\<And>p c. c \<in> dd_lookup g p \<Longrightarrow> child_of c p"
    and "c \<in> dd_lookup (add_generated_imports_module m g) p"
  shows "child_of c p"
  using assms
proof (induction m arbitrary: g rule: length_induct)
  case (1 m)
  show ?case
  proof (cases "CHR ''.'' \<in> set m")
    case False
    then show ?thesis using "1.prems" by (simp add: add_generated_imports_module_no_dot)
  next
    case True
    then obtain pre suf where m: "m = pre @ CHR ''.'' # suf" and suf: "CHR ''.'' \<notin> set suf"
      using split_list_last by fastforce
    have len: "length pre < length m" by (simp add: m)
    have inv: "child_of c' p'" if "c' \<in> dd_lookup (dd_add pre m g) p'" for p' c'
    proof (cases "p' = pre \<and> c' = m")
      case True
      then show ?thesis using suf by (simp add: child_of_def m)
    next
      case False
      then have "c' \<in> dd_lookup g p'" using that by (simp add: dd_lookup_dd_add split: if_splits)
      then show ?thesis by (rule "1.prems"(1))
    qed
    have "c \<in> dd_lookup (add_generated_imports_module pre (dd_add pre m g)) p"
      using "1.prems"(2) add_generated_imports_module_dot [OF suf, of pre g] by (simp add: m)
    with "1.IH" len inv show ?thesis by blast
  qed
qed

lemma add_generated_imports_module_chain:
  assumes "CHR ''.'' \<notin> set seg" "rest = [] \<or> (\<exists>r. rest = ''.'' @ r)"
  shows "p @ ''.'' @ seg \<in> dd_lookup (add_generated_imports_module (p @ ''.'' @ seg @ rest) g) p"
  using assms(2)
proof (induction rest arbitrary: g rule: length_induct)
  case (1 rest)
  show ?case
  proof (cases "rest = []")
    case True
    have "p @ ''.'' @ seg \<in> dd_lookup (dd_add p (p @ ''.'' @ seg) g) p"
      by (simp add: dd_lookup_dd_add)
    then show ?thesis
      using add_generated_imports_module_dot [OF assms(1), of p g]
        add_generated_imports_module_mono
      by (simp add: True)
  next
    case False
    then obtain r where rest: "rest = CHR ''.'' # r" using "1.prems" by auto
    have "\<exists>r1 r2. rest = r1 @ CHR ''.'' # r2 \<and> CHR ''.'' \<notin> set r2"
      using split_list_last [of "CHR ''.''" rest] rest by simp
    then obtain r1 r2 where r12: "rest = r1 @ CHR ''.'' # r2" and r2: "CHR ''.'' \<notin> set r2"
      by blast
    have r1: "r1 = [] \<or> (\<exists>r. r1 = ''.'' @ r)"
      using rest r12 by (cases r1) simp_all
    have len: "length r1 < length rest" by (simp add: r12)
    let ?pre = "p @ ''.'' @ seg @ r1"
    have m: "p @ ''.'' @ seg @ rest = ?pre @ ''.'' @ r2" by (simp add: r12)
    have "p @ ''.'' @ seg \<in> dd_lookup (add_generated_imports_module ?pre
            (dd_add ?pre (?pre @ ''.'' @ r2) g)) p"
      using "1.IH" len r1 by blast
    then show ?thesis
      unfolding m add_generated_imports_module_dot [OF r2, of ?pre g] .
  qed
qed

lemma add_generated_imports_fold_mono:
  "x \<in> dd_lookup g k \<Longrightarrow> x \<in> dd_lookup (fold add_generated_imports_module ms g) k"
  by (induction ms arbitrary: g) (simp_all add: add_generated_imports_module_mono)

lemma add_generated_imports_fold_chain:
  assumes "p @ ''.'' @ seg @ rest \<in> set ms" "CHR ''.'' \<notin> set seg"
    "rest = [] \<or> (\<exists>r. rest = ''.'' @ r)"
  shows "p @ ''.'' @ seg \<in> dd_lookup (fold add_generated_imports_module ms g) p"
  using assms(1)
proof (induction ms arbitrary: g)
  case Nil
  then show ?case by simp
next
  case (Cons m ms)
  show ?case
  proof (cases "m = p @ ''.'' @ seg @ rest")
    case True
    then show ?thesis
      using add_generated_imports_module_chain [OF assms(2,3), of p g]
        add_generated_imports_fold_mono by simp
  next
    case False
    then show ?thesis using Cons by simp
  qed
qed

lemma add_generated_imports_fold_child:
  assumes "\<And>p c. c \<in> dd_lookup g p \<Longrightarrow> child_of c p"
    and "c \<in> dd_lookup (fold add_generated_imports_module ms g) p"
  shows "child_of c p"
  using assms
proof (induction ms arbitrary: g)
  case Nil
  then show ?case by simp
next
  case (Cons m ms)
  have "child_of c' p'" if "c' \<in> dd_lookup (add_generated_imports_module m g) p'" for c' p'
    using add_generated_imports_module_child [OF Cons.prems(1) that] .
  then show ?case
    using Cons.IH [of "add_generated_imports_module m g"] Cons.prems(2) by simp
qed

text \<open>
  Claim C1, as the code has it.  \<open>add_generated_imports\<close> walks a module name from its
  last dot to its first and links every dotted prefix to the next longer one: for a key
  \<open>p.seg...\<close> the prefix \<open>p\<close> gets the edge to \<open>p.seg\<close>.  Every edge of the map built
  from the empty map goes from a module to one of its immediate children, so for a key
  \<open>a.b.c\<close> the edges \<open>a \<rightarrow> a.b\<close> and \<open>a.b \<rightarrow> a.b.c\<close> are present and
  \<open>a \<rightarrow> a.b.c\<close> is not.
\<close>

theorem generated_imports_parent_to_child:
  "(\<forall>p seg rest. p @ ''.'' @ seg @ rest \<in> set (keys eps) \<and> CHR ''.'' \<notin> set seg
        \<and> (rest = [] \<or> (\<exists>r. rest = ''.'' @ r)) \<longrightarrow>
      p @ ''.'' @ seg \<in> dd_lookup (add_generated_imports eps []) p)
   \<and> (\<forall>p c. c \<in> dd_lookup (add_generated_imports eps []) p \<longrightarrow>
      (\<exists>seg. c = p @ ''.'' @ seg \<and> CHR ''.'' \<notin> set seg))
   \<and> (\<forall>a b c. a @ ''.'' @ b @ ''.'' @ c \<in> set (keys eps) \<and> CHR ''.'' \<notin> set a
        \<and> CHR ''.'' \<notin> set b \<and> CHR ''.'' \<notin> set c \<longrightarrow>
      a @ ''.'' @ b \<in> dd_lookup (add_generated_imports eps []) a
      \<and> a @ ''.'' @ b @ ''.'' @ c \<in> dd_lookup (add_generated_imports eps []) (a @ ''.'' @ b)
      \<and> a @ ''.'' @ b @ ''.'' @ c \<notin> dd_lookup (add_generated_imports eps []) a)"
proof -
  let ?G = "add_generated_imports eps []"
  have chain: "p @ ''.'' @ seg \<in> dd_lookup ?G p"
    if "p @ ''.'' @ seg @ rest \<in> set (keys eps)" "CHR ''.'' \<notin> set seg"
       "rest = [] \<or> (\<exists>r. rest = ''.'' @ r)" for p seg rest
    unfolding add_generated_imports_def
    using add_generated_imports_fold_chain [OF that] .
  have child: "\<exists>seg. c = p @ ''.'' @ seg \<and> CHR ''.'' \<notin> set seg" if "c \<in> dd_lookup ?G p" for p c
  proof -
    have "child_of c p"
    proof (rule add_generated_imports_fold_child)
      show "c \<in> dd_lookup (fold add_generated_imports_module (keys eps) []) p"
        using that by (simp add: add_generated_imports_def)
    next
      fix p' c' :: string
      assume "c' \<in> dd_lookup [] p'"
      then show "child_of c' p'" by (simp add: dd_lookup_def)
    qed
    then show ?thesis by (simp add: child_of_def)
  qed
  have three: "a @ ''.'' @ b \<in> dd_lookup ?G a
      \<and> a @ ''.'' @ b @ ''.'' @ c \<in> dd_lookup ?G (a @ ''.'' @ b)
      \<and> a @ ''.'' @ b @ ''.'' @ c \<notin> dd_lookup ?G a"
    if k: "a @ ''.'' @ b @ ''.'' @ c \<in> set (keys eps)" and a: "CHR ''.'' \<notin> set a"
      and b: "CHR ''.'' \<notin> set b" and c: "CHR ''.'' \<notin> set c" for a b c
  proof (intro conjI)
    show "a @ ''.'' @ b \<in> dd_lookup ?G a"
      using chain [of a b "''.'' @ c"] k b by simp
    show "a @ ''.'' @ b @ ''.'' @ c \<in> dd_lookup ?G (a @ ''.'' @ b)"
      using chain [of "a @ ''.'' @ b" c "[]"] k c by simp
    show "a @ ''.'' @ b @ ''.'' @ c \<notin> dd_lookup ?G a"
    proof
      assume "a @ ''.'' @ b @ ''.'' @ c \<in> dd_lookup ?G a"
      from child [OF this] obtain seg where
        "a @ ''.'' @ b @ ''.'' @ c = a @ ''.'' @ seg" "CHR ''.'' \<notin> set seg" by blast
      then show False by auto
    qed
  qed
  show ?thesis using chain child three by blast
qed

theorem generated_imports_parent_to_child_witness:
  "''a.b.c'' \<in> set (keys [(''a.b.c'', {api_entrypoint ''a'' ''v2.b.c.f''
          \<lparr>file_name = ''pkg/mod.py'', line_no = 7, symbol_name = ''f'', v1_apis = [], v2_apis = [''v2.b.c.f'']\<rparr>})])
   \<and> CHR ''.'' \<notin> set ''a'' \<and> CHR ''.'' \<notin> set ''b'' \<and> CHR ''.'' \<notin> set ''c''
   \<and> ''a.b'' \<in> dd_lookup (add_generated_imports [(''a.b.c'', {api_entrypoint ''a'' ''v2.b.c.f''
          \<lparr>file_name = ''pkg/mod.py'', line_no = 7, symbol_name = ''f'', v1_apis = [], v2_apis = [''v2.b.c.f'']\<rparr>})] []) ''a''
   \<and> ''a.b.c'' \<in> dd_lookup (add_generated_imports [(''a.b.c'', {api_entrypoint ''a'' ''v2.b.c.f''
          \<lparr>file_name = ''pkg/mod.py'', line_no = 7, symbol_name = ''f'', v1_apis = [], v2_apis = [''v2.b.c.f'']\<rparr>})] []) ''a.b''
   \<and> ''a.b.c'' \<notin> dd_lookup (add_generated_imports [(''a.b.c'', {api_entrypoint ''a'' ''v2.b.c.f''
          \<lparr>file_name = ''pkg/mod.py'', line_no = 7, symbol_name = ''f'', v1_apis = [], v2_apis = [''v2.b.c.f'']\<rparr>})] []) ''a''"
  using generated_imports_parent_to_child [of "[(''a.b.c'', {api_entrypoint ''a'' ''v2.b.c.f''
          \<lparr>file_name = ''pkg/mod.py'', line_no = 7, symbol_name = ''f'', v1_apis = [], v2_apis = [''v2.b.c.f'']\<rparr>})]",
      THEN conjunct2, THEN conjunct2, rule_format, of "''a''" "''b''" "''c''"]
  by (simp add: keys_def)

text \<open>
  One symbol exported as \<open>v2.b.c.f\<close> under the package \<open>a\<close>: the module \<open>a.b.c\<close> has
  an entrypoint, and the import set of \<open>a\<close> holds \<open>a.b\<close> only.
\<close>

theorem generated_imports_ancestor_counterexample:
  "map_sum id (keys \<circ> v2_entrypoints_by_module)
     (get_public_api
        [\<lparr>file_name = ''pkg/mod.py'', line_no = 7, symbol_name = ''f'',
          v1_apis = [], v2_apis = [''v2.b.c.f'']\<rparr>] [] [] [] ''a'' [])
     = Inr [''a.b.c'']
   \<and> map_sum id v2_generated_imports_by_module
     (get_public_api
        [\<lparr>file_name = ''pkg/mod.py'', line_no = 7, symbol_name = ''f'',
          v1_apis = [], v2_apis = [''v2.b.c.f'']\<rparr>] [] [] [] ''a'' [])
     = Inr [(''a.b'', {''a.b.c''}), (''a'', {''a.b''})]
   \<and> ''a.b.c'' \<notin> dd_lookup [(''a.b'', {''a.b.c''}), (''a'', {''a.b''})] ''a''"
  by (simp add: get_public_api_def collect_entrypoints_def should_skip_file_def
      add_exported_symbols_def api_module_def api_entrypoint_def dd_add_def dd_lookup_def
      add_generated_imports_def keys_def slice_def slice_index_def slice_to_def Let_def
      add_generated_imports_module.simps)

lemma dd_lookup_subset_entries: "dd_lookup d m \<subseteq> \<Union> (snd ` set d)"
proof (cases "map_of d m")
  case None
  then show ?thesis by (simp add: dd_lookup_def)
next
  case (Some v)
  then have "(m, v) \<in> set d" by (rule map_of_SomeD)
  then have "v \<in> snd ` set d" by force
  then show ?thesis using Some by (auto simp: dd_lookup_def)
qed

lemma entries_dict_set: "\<Union> (snd ` set (dict_set k v d)) \<subseteq> v \<union> \<Union> (snd ` set d)"
  by (induction d) auto

lemma entrypoints_of_dd_add:
  "entrypoints_of (dd_add k x d) \<subseteq> insert x (entrypoints_of d)"
  using entries_dict_set [of k "insert x (dd_lookup d k)" d] dd_lookup_subset_entries [of d k]
  unfolding entrypoints_of_def dd_add_def by blast

lemma entrypoints_of_add_exported_symbols:
  "e \<in> entrypoints_of (add_exported_symbols root names s d) \<Longrightarrow>
     e \<in> entrypoints_of d \<or> exported_symbol e = s"
proof (induction names arbitrary: d)
  case Nil
  then show ?case by (simp add: add_exported_symbols_Nil)
next
  case (Cons n names)
  from Cons.IH [OF Cons.prems [unfolded add_exported_symbols_Cons]]
  have "e \<in> entrypoints_of (dd_add (api_module root n) (api_entrypoint root n s) d)
        \<or> exported_symbol e = s" .
  then show ?case
    using entrypoints_of_dd_add [of "api_module root n" "api_entrypoint root n s" d]
    by (auto simp: api_entrypoint_def)
qed

lemma collect_fold_not_skipped:
  assumes "\<And>e. e \<in> entrypoints_of (fst acc) \<union> entrypoints_of (snd acc) \<Longrightarrow>
             \<not> should_skip_file (file_name (exported_symbol e)) fps pti mp"
    and "e \<in> entrypoints_of (fst res) \<union> entrypoints_of (snd res)"
    and "res = fold (\<lambda>s (v1, v2).
             if should_skip_file (file_name s) fps pti mp
             then (v1, v2)
             else (add_exported_symbols root (v1_apis s) s v1,
                   add_exported_symbols root (v2_apis s) s v2)) symbols acc"
  shows "\<not> should_skip_file (file_name (exported_symbol e)) fps pti mp"
  using assms
proof (induction symbols arbitrary: acc)
  case Nil
  then show ?case by simp
next
  case (Cons s symbols)
  obtain v1 v2 where acc: "acc = (v1, v2)" by (cases acc)
  let ?acc' = "if should_skip_file (file_name s) fps pti mp
             then (v1, v2)
             else (add_exported_symbols root (v1_apis s) s v1,
                   add_exported_symbols root (v2_apis s) s v2)"
  have inv: "\<not> should_skip_file (file_name (exported_symbol e')) fps pti mp"
    if "e' \<in> entrypoints_of (fst ?acc') \<union> entrypoints_of (snd ?acc')" for e'
  proof (cases "should_skip_file (file_name s) fps pti mp")
    case True
    then show ?thesis using that Cons.prems(1) [of e'] by (simp add: acc)
  next
    case False
    then have "e' \<in> entrypoints_of v1 \<union> entrypoints_of v2 \<or> exported_symbol e' = s"
      using that entrypoints_of_add_exported_symbols [of e' root _ s] by auto
    then show ?thesis using False Cons.prems(1) [of e'] by (auto simp: acc)
  qed
  show ?case
    by (rule Cons.IH [OF inv Cons.prems(2)]) (simp_all add: Cons.prems(3) acc)
qed

text \<open>
  Claim C5.  When the normalised import path of a symbol's file starts with one of the
  ignored packages, no entrypoint of either version's map, as \<open>get_public_api\<close>
  returns them, refers back to that symbol: neither an entry stored in a map nor one that
  a lookup returns.
\<close>

theorem ignored_symbol_has_no_entrypoint:
  assumes "get_public_api symbols docs file_prefixes_to_strip packages_to_ignore
             output_package module_prefix = Inr api"
    and "package \<in> set packages_to_ignore"
    and "startswith (get_import_path (file_name s) file_prefixes_to_strip module_prefix) package"
  shows "(e \<in> entrypoints_of (v1_entrypoints_by_module api)
            \<union> entrypoints_of (v2_entrypoints_by_module api) \<longrightarrow> exported_symbol e \<noteq> s)
       \<and> (e \<in> dd_lookup (v1_entrypoints_by_module api) m
            \<union> dd_lookup (v2_entrypoints_by_module api) m \<longrightarrow> exported_symbol e \<noteq> s)"
proof -
  have skip: "should_skip_file (file_name s) file_prefixes_to_strip packages_to_ignore module_prefix"
    using assms(2,3) by (auto simp: should_skip_file_def list_ex_iff)
  obtain v1 v2 where c: "collect_entrypoints symbols file_prefixes_to_strip packages_to_ignore
      output_package module_prefix = (v1, v2)" by force
  have api: "v1_entrypoints_by_module api = v1" "v2_entrypoints_by_module api = v2"
    using assms(1) by (auto simp: get_public_api_def c split: sum.splits)
  have a: "exported_symbol e \<noteq> s" if "e \<in> entrypoints_of v1 \<union> entrypoints_of v2" for e
  proof -
    have "\<not> should_skip_file (file_name (exported_symbol e)) file_prefixes_to_strip
            packages_to_ignore module_prefix"
    proof (rule collect_fold_not_skipped [where acc = "([], [])" and res = "(v1, v2)"])
      show "(v1, v2) = fold (\<lambda>s (v1, v2).
             if should_skip_file (file_name s) file_prefixes_to_strip packages_to_ignore module_prefix
             then (v1, v2)
             else (add_exported_symbols output_package (v1_apis s) s v1,
                   add_exported_symbols output_package (v2_apis s) s v2)) symbols ([], [])"
        using c by (simp add: collect_entrypoints_def)
    qed (use that in \<open>simp_all add: entrypoints_of_def\<close>)
    then show ?thesis using skip by auto
  qed
  moreover have "dd_lookup v1 m \<subseteq> entrypoints_of v1" "dd_lookup v2 m \<subseteq> entrypoints_of v2"
    by (simp_all add: entrypoints_of_def dd_lookup_subset_entries)
  ultimately show ?thesis unfolding api by blast
qed

theorem ignored_symbol_has_no_entrypoint_witness:
  "get_public_api
      [\<lparr>file_name = ''tensorflow/lite/python/lite.py'', line_no = 3,
        symbol_name = ''Interpreter'', v1_apis = [''v1.lite.Interpreter''],
        v2_apis = [''v2.lite.Interpreter'']\<rparr>,
       \<lparr>file_name = ''tensorflow/python/ops/math_ops.py'', line_no = 9,
        symbol_name = ''add'', v1_apis = [''v1.math.add''], v2_apis = [''v2.add'']\<rparr>]
      [] [] [''tensorflow.lite''] ''tf'' '''' =
    Inr \<lparr>v1_entrypoints_by_module =
           [(''tf.math'',
             {\<lparr>ep_module = ''tf.math'', ep_name = ''add'',
               exported_symbol =
                 \<lparr>file_name = ''tensorflow/python/ops/math_ops.py'', line_no = 9,
                  symbol_name = ''add'', v1_apis = [''v1.math.add''],
                  v2_apis = [''v2.add'']\<rparr>\<rparr>})],
         v2_entrypoints_by_module =
           [(''tf'',
             {\<lparr>ep_module = ''tf'', ep_name = ''add'',
               exported_symbol =
                 \<lparr>file_name = ''tensorflow/python/ops/math_ops.py'', line_no = 9,
                  symbol_name = ''add'', v1_apis = [''v1.math.add''],
                  v2_apis = [''v2.add'']\<rparr>\<rparr>})],
         v1_generated_imports_by_module = [(''tf'', {''tf.math''})],
         v2_generated_imports_by_module = [], docs_by_module = []\<rparr>
   \<and> ''tensorflow.lite'' \<in> set [''tensorflow.lite'']
   \<and> startswith (get_import_path ''tensorflow/lite/python/lite.py'' [] '''') ''tensorflow.lite''
   \<and> api_entrypoint ''tf'' ''v2.lite.Interpreter''
         \<lparr>file_name = ''tensorflow/lite/python/lite.py'', line_no = 3,
          symbol_name = ''Interpreter'', v1_apis = [''v1.lite.Interpreter''],
          v2_apis = [''v2.lite.Interpreter'']\<rparr>
       \<notin> entrypoints_of [(''tf'',
             {\<lparr>ep_module = ''tf'', ep_name = ''add'',
               exported_symbol =
                 \<lparr>file_name = ''tensorflow/python/ops/math_ops.py'', line_no = 9,
                  symbol_name = ''add'', v1_apis = [''v1.math.add''],
                  v2_apis = [''v2.add'']\<rparr>\<rparr>})]"
proof -
  let ?ign = "\<lparr>file_name = ''tensorflow/lite/python/lite.py'', line_no = 3,
        symbol_name = ''Interpreter'', v1_apis = [''v1.lite.Interpreter''],
        v2_apis = [''v2.lite.Interpreter'']\<rparr>"
  let ?ok = "\<lparr>file_name = ''tensorflow/python/ops/math_ops.py'', line_no = 9,
        symbol_name = ''add'', v1_apis = [''v1.math.add''], v2_apis = [''v2.add'']\<rparr>"
  let ?api = "\<lparr>v1_entrypoints_by_module =
           [(''tf.math'', {\<lparr>ep_module = ''tf.math'', ep_name = ''add'', exported_symbol = ?ok\<rparr>})],
         v2_entrypoints_by_module =
           [(''tf'', {\<lparr>ep_module = ''tf'', ep_name = ''add'', exported_symbol = ?ok\<rparr>})],
         v1_generated_imports_by_module = [(''tf'', {''tf.math''})],
         v2_generated_imports_by_module = [], docs_by_module = []\<rparr>"
  have p: "get_import_path ''tensorflow/lite/python/lite.py'' [] '''' = ''tensorflow.lite.python.lite''"
    by (simp add: get_import_path_def removesuffix_def endswith_def strip_def startswith_def)
  have p': "get_import_path ''tensorflow/python/ops/math_ops.py'' [] '''' = ''tensorflow.python.ops.math_ops''"
    by (simp add: get_import_path_def removesuffix_def endswith_def strip_def startswith_def)
  have run: "get_public_api [?ign, ?ok] [] [] [''tensorflow.lite''] ''tf'' '''' = Inr ?api"
    by (simp add: get_public_api_def collect_entrypoints_def should_skip_file_def p p'
      startswith_def add_exported_symbols_def api_module_def api_entrypoint_def
      api_symbol_name_def dd_add_def dd_lookup_def
      add_generated_imports_def keys_def slice_def slice_index_def slice_to_def slice_from_def Let_def
      add_generated_imports_module.simps)
  have mem: "''tensorflow.lite'' \<in> set [''tensorflow.lite'']" by simp
  have sw: "startswith (get_import_path (file_name ?ign) [] '''') ''tensorflow.lite''"
    by (simp add: p startswith_def)
  from ignored_symbol_has_no_entrypoint [OF run mem sw,
      of "api_entrypoint ''tf'' ''v2.lite.Interpreter'' ?ign"]
  show ?thesis using run mem sw by (simp add: api_entrypoint_def)
qed

lemma keys_dict_set: "set (keys (dict_set k v d)) = insert k (set (keys d))"
  by (induction d) (auto simp: keys_def)

lemma register_doc_ok:
  "(\<exists>docs'. register_doc d ms docs = Inr docs') \<longleftrightarrow>
     distinct ms \<and> set ms \<inter> set (keys docs) = {}"
proof (induction ms arbitrary: docs)
  case Nil
  show ?case by simp
next
  case (Cons m ms)
  show ?case by (simp add: Cons.IH keys_dict_set) blast
qed

lemma register_doc_keys:
  "register_doc d ms docs = Inr docs' \<Longrightarrow> set (keys docs') = set (keys docs) \<union> set ms"
proof (induction ms arbitrary: docs)
  case Nil
  then show ?case by simp
next
  case (Cons m ms)
  then show ?case by (simp add: keys_dict_set split: if_splits)
qed

lemma register_docs_ok:
  "(\<exists>r. register_docs ds docs = Inr r) \<longleftrightarrow>
     distinct (concat (map modules ds)) \<and> set (concat (map modules ds)) \<inter> set (keys docs) = {}"
proof (induction ds arbitrary: docs)
  case Nil
  show ?case by simp
next
  case (Cons d ds)
  show ?case
  proof (cases "register_doc d (modules d) docs")
    case (Inl e)
    then have "\<not> (distinct (modules d) \<and> set (modules d) \<inter> set (keys docs) = {})"
      using register_doc_ok [of d "modules d" docs] by simp
    then show ?thesis using Inl by auto
  next
    case (Inr docs')
    then have ok: "distinct (modules d)" "set (modules d) \<inter> set (keys docs) = {}"
      using register_doc_ok [of d "modules d" docs] by auto
    have k: "set (keys docs') = set (keys docs) \<union> set (modules d)"
      using register_doc_keys [OF Inr] .
    show ?thesis
      using Inr ok by (simp add: Cons.IH k) blast
  qed
qed

lemma register_docs_keys:
  "register_docs ds docs = Inr docs' \<Longrightarrow>
     set (keys docs') = set (keys docs) \<union> set (concat (map modules ds))"
proof (induction ds arbitrary: docs)
  case Nil
  then show ?case by simp
next
  case (Cons d ds)
  show ?case
  proof (cases "register_doc d (modules d) docs")
    case (Inl e)
    then show ?thesis using Cons.prems by simp
  next
    case (Inr docs1)
    then have "register_docs ds docs1 = Inr docs'" using Cons.prems by simp
    from Cons.IH [OF this] register_doc_keys [OF Inr] show ?thesis by auto
  qed
qed

lemma register_doc_append:
  "register_doc d (ms1 @ ms) docs =
     (case register_doc d ms1 docs of Inl e \<Rightarrow> Inl e | Inr docs' \<Rightarrow> register_doc d ms docs')"
  by (induction ms1 arbitrary: docs) simp_all

lemma register_docs_append:
  "register_docs (pre @ ds) docs =
     (case register_docs pre docs of Inl e \<Rightarrow> Inl e | Inr docs' \<Rightarrow> register_docs ds docs')"
  by (induction pre arbitrary: docs) (simp_all split: sum.splits)

lemma register_doc_first_conflict:
  "register_doc d ms docs = Inl e \<longleftrightarrow>
     (\<exists>ms1 m ms2. ms = ms1 @ m # ms2
        \<and> distinct ms1 \<and> set ms1 \<inter> set (keys docs) = {}
        \<and> m \<in> set (keys docs) \<union> set ms1
        \<and> e = DocExportedTwiceError (doc_exported_twice_message d m))"
proof
  assume "register_doc d ms docs = Inl e"
  then show "\<exists>ms1 m ms2. ms = ms1 @ m # ms2
        \<and> distinct ms1 \<and> set ms1 \<inter> set (keys docs) = {}
        \<and> m \<in> set (keys docs) \<union> set ms1
        \<and> e = DocExportedTwiceError (doc_exported_twice_message d m)"
  proof (induction ms arbitrary: docs)
    case Nil
    then show ?case by simp
  next
    case (Cons m ms)
    show ?case
    proof (cases "m \<in> set (keys docs)")
      case True
      then have "e = DocExportedTwiceError (doc_exported_twice_message d m)"
        using Cons.prems by simp
      then have "m # ms = [] @ m # ms \<and> distinct ([] :: string list)
          \<and> set [] \<inter> set (keys docs) = {} \<and> m \<in> set (keys docs) \<union> set []
          \<and> e = DocExportedTwiceError (doc_exported_twice_message d m)"
        using True by simp
      then show ?thesis by blast
    next
      case False
      then have "register_doc d ms (dict_set m (docstring d) docs) = Inl e"
        using Cons.prems by simp
      from Cons.IH [OF this] obtain ms1 m' ms2 where *:
        "ms = ms1 @ m' # ms2" "distinct ms1"
        "set ms1 \<inter> set (keys (dict_set m (docstring d) docs)) = {}"
        "m' \<in> set (keys (dict_set m (docstring d) docs)) \<union> set ms1"
        "e = DocExportedTwiceError (doc_exported_twice_message d m')" by blast
      have "m # ms = (m # ms1) @ m' # ms2 \<and> distinct (m # ms1)
          \<and> set (m # ms1) \<inter> set (keys docs) = {} \<and> m' \<in> set (keys docs) \<union> set (m # ms1)
          \<and> e = DocExportedTwiceError (doc_exported_twice_message d m')"
        using * False by (auto simp: keys_dict_set)
      then show ?thesis by blast
    qed
  qed
next
  assume "\<exists>ms1 m ms2. ms = ms1 @ m # ms2
        \<and> distinct ms1 \<and> set ms1 \<inter> set (keys docs) = {}
        \<and> m \<in> set (keys docs) \<union> set ms1
        \<and> e = DocExportedTwiceError (doc_exported_twice_message d m)"
  then obtain ms1 m ms2 where *: "ms = ms1 @ m # ms2" "distinct ms1"
    "set ms1 \<inter> set (keys docs) = {}" "m \<in> set (keys docs) \<union> set ms1"
    "e = DocExportedTwiceError (doc_exported_twice_message d m)" by blast
  from *(2,3) obtain docs' where r: "register_doc d ms1 docs = Inr docs'"
    using register_doc_ok [of d ms1 docs] by blast
  have "m \<in> set (keys docs')" using register_doc_keys [OF r] *(4) by simp
  then show "register_doc d ms docs = Inl e"
    by (simp add: *(1,5) register_doc_append r)
qed

lemma register_docs_first_conflict:
  "register_docs ds docs = Inl e \<longleftrightarrow>
     (\<exists>pre d post ms1 m ms2. ds = pre @ d # post \<and> modules d = ms1 @ m # ms2
        \<and> distinct (concat (map modules pre) @ ms1)
        \<and> set (concat (map modules pre) @ ms1) \<inter> set (keys docs) = {}
        \<and> m \<in> set (keys docs) \<union> set (concat (map modules pre) @ ms1)
        \<and> e = DocExportedTwiceError (doc_exported_twice_message d m))"
proof
  assume "register_docs ds docs = Inl e"
  then show "\<exists>pre d post ms1 m ms2. ds = pre @ d # post \<and> modules d = ms1 @ m # ms2
        \<and> distinct (concat (map modules pre) @ ms1)
        \<and> set (concat (map modules pre) @ ms1) \<inter> set (keys docs) = {}
        \<and> m \<in> set (keys docs) \<union> set (concat (map modules pre) @ ms1)
        \<and> e = DocExportedTwiceError (doc_exported_twice_message d m)"
  proof (induction ds arbitrary: docs)
    case Nil
    then show ?case by simp
  next
    case (Cons d ds)
    show ?case
    proof (cases "register_doc d (modules d) docs")
      case (Inl e')
      then have "register_doc d (modules d) docs = Inl e" using Cons.prems by simp
      then obtain ms1 m ms2 where
        "modules d = ms1 @ m # ms2" "distinct ms1" "set ms1 \<inter> set (keys docs) = {}"
        "m \<in> set (keys docs) \<union> set ms1"
        "e = DocExportedTwiceError (doc_exported_twice_message d m)"
        unfolding register_doc_first_conflict by blast
      then have "d # ds = [] @ d # ds \<and> modules d = ms1 @ m # ms2
          \<and> distinct (concat (map modules []) @ ms1)
          \<and> set (concat (map modules []) @ ms1) \<inter> set (keys docs) = {}
          \<and> m \<in> set (keys docs) \<union> set (concat (map modules []) @ ms1)
          \<and> e = DocExportedTwiceError (doc_exported_twice_message d m)" by simp
      then show ?thesis by blast
    next
      case (Inr docs')
      then have ok: "distinct (modules d)" "set (modules d) \<inter> set (keys docs) = {}"
        using register_doc_ok [of d "modules d" docs] by auto
      have k: "set (keys docs') = set (keys docs) \<union> set (modules d)"
        using register_doc_keys [OF Inr] .
      have "register_docs ds docs' = Inl e" using Cons.prems Inr by simp
      from Cons.IH [OF this] obtain pre d' post ms1 m ms2 where *:
        "ds = pre @ d' # post" "modules d' = ms1 @ m # ms2"
        "distinct (concat (map modules pre) @ ms1)"
        "set (concat (map modules pre) @ ms1) \<inter> set (keys docs') = {}"
        "m \<in> set (keys docs') \<union> set (concat (map modules pre) @ ms1)"
        "e = DocExportedTwiceError (doc_exported_twice_message d' m)" by blast
      have "d # ds = (d # pre) @ d' # post \<and> modules d' = ms1 @ m # ms2
          \<and> distinct (concat (map modules (d # pre)) @ ms1)
          \<and> set (concat (map modules (d # pre)) @ ms1) \<inter> set (keys docs) = {}
          \<and> m \<in> set (keys docs) \<union> set (concat (map modules (d # pre)) @ ms1)
          \<and> e = DocExportedTwiceError (doc_exported_twice_message d' m)"
        using * ok unfolding k by auto
      then show ?thesis by blast
    qed
  qed
next
  assume "\<exists>pre d post ms1 m ms2. ds = pre @ d # post \<and> modules d = ms1 @ m # ms2
        \<and> distinct (concat (map modules pre) @ ms1)
        \<and> set (concat (map modules pre) @ ms1) \<inter> set (keys docs) = {}
        \<and> m \<in> set (keys docs) \<union> set (concat (map modules pre) @ ms1)
        \<and> e = DocExportedTwiceError (doc_exported_twice_message d m)"
  then obtain pre d post ms1 m ms2 where *: "ds = pre @ d # post" "modules d = ms1 @ m # ms2"
    "distinct (concat (map modules pre) @ ms1)"
    "set (concat (map modules pre) @ ms1) \<inter> set (keys docs) = {}"
    "m \<in> set (keys docs) \<union> set (concat (map modules pre) @ ms1)"
    "e = DocExportedTwiceError (doc_exported_twice_message d m)" by blast
  from *(3,4) have "distinct (concat (map modules pre))
      \<and> set (concat (map modules pre)) \<inter> set (keys docs) = {}" by auto
  then obtain docs' where r: "register_docs pre docs = Inr docs'"
    using register_docs_ok [of pre docs] by blast
  have k: "set (keys docs') = set (keys docs) \<union> set (concat (map modules pre))"
    using register_docs_keys [OF r] .
  have "modules d = ms1 @ m # ms2 \<and> distinct ms1 \<and> set ms1 \<inter> set (keys docs') = {}
      \<and> m \<in> set (keys docs') \<union> set ms1
      \<and> e = DocExportedTwiceError (doc_exported_twice_message d m)"
    using * unfolding k by auto
  then have "register_doc d (modules d) docs' = Inl e"
    unfolding register_doc_first_conflict by blast
  then show "register_docs ds docs = Inl e"
    by (simp add: *(1) register_docs_append r)
qed

lemma distinct_concat_mset:
  assumes "mset ds' = mset ds"
  shows "distinct (concat (map f ds')) \<longleftrightarrow> distinct (concat (map f ds))"
proof -
  have "mset (concat (map f ds')) = mset (concat (map f ds))"
    using assms by (metis mset_concat mset_map sum_mset_sum_list)
  then show ?thesis by (metis distinct_count_atmost_1 count_mset_0_iff set_mset_mset)
qed

lemma not_distinct_concat_two:
  assumes "\<forall>d\<in>set ds. distinct (f d)"
  shows "\<not> distinct (concat (map f ds)) \<longleftrightarrow>
     (\<exists>pre d1 mid d2 post. ds = pre @ d1 # mid @ d2 # post \<and> set (f d1) \<inter> set (f d2) \<noteq> {})"
proof
  assume "\<exists>pre d1 mid d2 post. ds = pre @ d1 # mid @ d2 # post \<and> set (f d1) \<inter> set (f d2) \<noteq> {}"
  then obtain pre d1 mid d2 post where
    "ds = pre @ d1 # mid @ d2 # post" "set (f d1) \<inter> set (f d2) \<noteq> {}" by blast
  then show "\<not> distinct (concat (map f ds))" by auto
next
  assume "\<not> distinct (concat (map f ds))"
  then show "\<exists>pre d1 mid d2 post. ds = pre @ d1 # mid @ d2 # post \<and> set (f d1) \<inter> set (f d2) \<noteq> {}"
    using assms
  proof (induction ds)
    case Nil
    then show ?case by simp
  next
    case (Cons d ds)
    show ?case
    proof (cases "distinct (concat (map f ds))")
      case False
      have "\<forall>d\<in>set ds. distinct (f d)" using Cons.prems(2) by simp
      from Cons.IH [OF False this] obtain pre d1 mid d2 post where
        "ds = pre @ d1 # mid @ d2 # post" "set (f d1) \<inter> set (f d2) \<noteq> {}" by blast
      then have "d # ds = (d # pre) @ d1 # mid @ d2 # post \<and> set (f d1) \<inter> set (f d2) \<noteq> {}"
        by simp
      then show ?thesis by blast
    next
      case True
      then have "set (f d) \<inter> set (concat (map f ds)) \<noteq> {}"
        using Cons.prems by auto
      then obtain d2 where d2: "d2 \<in> set ds" "set (f d) \<inter> set (f d2) \<noteq> {}" by auto
      then obtain mid post where "ds = mid @ d2 # post" by (meson split_list)
      then have "d # ds = [] @ d # mid @ d2 # post \<and> set (f d) \<inter> set (f d2) \<noteq> {}"
        using d2 by simp
      then show ?thesis by blast
    qed
  qed
qed

lemma get_public_api_error:
  "get_public_api symbols docs fps pti root mp = Inl e \<longleftrightarrow> register_docs docs [] = Inl e"
  by (simp add: get_public_api_def Let_def split: prod.splits sum.splits)

lemma get_public_api_ok:
  "(\<exists>api. get_public_api symbols docs fps pti root mp = Inr api) \<longleftrightarrow>
     (\<exists>dm. register_docs docs [] = Inr dm)"
  by (simp add: get_public_api_def Let_def split: prod.splits sum.splits)

lemma register_docs_error_iff:
  "(\<exists>e. register_docs docs [] = Inl e) \<longleftrightarrow> \<not> distinct (concat (map modules docs))"
proof -
  have "(\<exists>e. register_docs docs [] = Inl e) \<longleftrightarrow> \<not> (\<exists>r. register_docs docs [] = Inr r)"
    by (cases "register_docs docs []") simp_all
  then show ?thesis by (simp add: register_docs_ok keys_def)
qed

text \<open>
  Claim C4, as the code has it.  Registration fails exactly when some module is named
  twice in the modules of the Doc records, read in order; when every record names a module
  at most once, that is exactly when two records name the same module.  The error raised
  is the one of the first repeated module: the records before the one being registered,
  and the modules that one names before the repeated module, name no module twice, and
  the repeated module is among them.  The error is a \<open>DocExportedTwiceError\<close> whose
  message gives that module and the file and line of the record being registered, the
  later of the two.  Records that name pairwise disjoint modules register without error
  in every order.
\<close>

theorem docstring_conflict:
  "((\<exists>e. get_public_api symbols docs fps pti root mp = Inl e) \<longleftrightarrow>
      \<not> distinct (concat (map modules docs)))
   \<and> ((\<forall>d\<in>set docs. distinct (modules d)) \<longrightarrow>
        ((\<exists>e. get_public_api symbols docs fps pti root mp = Inl e) \<longleftrightarrow>
         (\<exists>pre d1 mid d2 post. docs = pre @ d1 # mid @ d2 # post
            \<and> set (modules d1) \<inter> set (modules d2) \<noteq> {})))
   \<and> (\<forall>e. get_public_api symbols docs fps pti root mp = Inl e \<longleftrightarrow>
        (\<exists>pre d post ms1 m ms2. docs = pre @ d # post \<and> modules d = ms1 @ m # ms2
           \<and> distinct (concat (map modules pre) @ ms1)
           \<and> e = DocExportedTwiceError
                 (''Docstring at '' @ doc_file_name d @ '':'' @ str_int (doc_line_no d)
                    @ '' is registered for '' @ m
                    @ '', which already has a registered docstring.'')
           \<and> m \<in> set (concat (map modules pre)) \<union> set ms1))
   \<and> (\<forall>docs'. mset docs' = mset docs \<and> distinct (concat (map modules docs)) \<longrightarrow>
        (\<exists>api. get_public_api symbols docs' fps pti root mp = Inr api))"
proof (intro conjI allI impI)
  show a: "(\<exists>e. get_public_api symbols docs fps pti root mp = Inl e) \<longleftrightarrow>
      \<not> distinct (concat (map modules docs))"
    by (simp add: get_public_api_error register_docs_error_iff)
  assume "\<forall>d\<in>set docs. distinct (modules d)"
  from not_distinct_concat_two [OF this]
  show "(\<exists>e. get_public_api symbols docs fps pti root mp = Inl e) \<longleftrightarrow>
         (\<exists>pre d1 mid d2 post. docs = pre @ d1 # mid @ d2 # post
            \<and> set (modules d1) \<inter> set (modules d2) \<noteq> {})"
    unfolding a .
next
  fix e
  have "register_docs docs [] = Inl e \<longleftrightarrow>
        (\<exists>pre d post ms1 m ms2. docs = pre @ d # post \<and> modules d = ms1 @ m # ms2
           \<and> distinct (concat (map modules pre) @ ms1)
           \<and> e = DocExportedTwiceError
                 (''Docstring at '' @ doc_file_name d @ '':'' @ str_int (doc_line_no d)
                    @ '' is registered for '' @ m
                    @ '', which already has a registered docstring.'')
           \<and> m \<in> set (concat (map modules pre)) \<union> set ms1)"
    unfolding register_docs_first_conflict [of docs "[]" e]
    by (simp add: keys_def doc_exported_twice_message_def conj_ac)
  then show "get_public_api symbols docs fps pti root mp = Inl e \<longleftrightarrow>
        (\<exists>pre d post ms1 m ms2. docs = pre @ d # post \<and> modules d = ms1 @ m # ms2
           \<and> distinct (concat (map modules pre) @ ms1)
           \<and> e = DocExportedTwiceError
                 (''Docstring at '' @ doc_file_name d @ '':'' @ str_int (doc_line_no d)
                    @ '' is registered for '' @ m
                    @ '', which already has a registered docstring.'')
           \<and> m \<in> set (concat (map modules pre)) \<union> set ms1)"
    unfolding get_public_api_error .
next
  fix docs'
  assume "mset docs' = mset docs \<and> distinct (concat (map modules docs))"
  then have "distinct (concat (map modules docs'))"
    using distinct_concat_mset [of docs' docs modules] by simp
  then have "\<exists>dm. register_docs docs' [] = Inr dm"
    by (simp add: register_docs_ok keys_def)
  then show "\<exists>api. get_public_api symbols docs' fps pti root mp = Inr api"
    by (simp add: get_public_api_ok)
qed

theorem docstring_conflict_witness:
  "distinct [''tf.io''] \<and> distinct [''tf.io'', ''tf.io.gfile'']
   \<and> get_public_api []
        [\<lparr>doc_file_name = ''tensorflow/python/ops/io_ops.py'', doc_line_no = 10,
          modules = [''tf.io''], docstring = ''Reading and writing.''\<rparr>,
         \<lparr>doc_file_name = ''tensorflow/python/lib/io/file_io.py'', doc_line_no = 20,
          modules = [''tf.io'', ''tf.io.gfile''], docstring = ''File access.''\<rparr>]
        [] [] ''tf'' '''' =
       Inl (DocExportedTwiceError
         ''Docstring at tensorflow/python/lib/io/file_io.py:20 is registered for tf.io, which already has a registered docstring.'')
   \<and> (\<exists>pre d1 mid d2 post.
         [\<lparr>doc_file_name = ''tensorflow/python/ops/io_ops.py'', doc_line_no = 10,
           modules = [''tf.io''], docstring = ''Reading and writing.''\<rparr>,
          \<lparr>doc_file_name = ''tensorflow/python/lib/io/file_io.py'', doc_line_no = 20,
           modules = [''tf.io'', ''tf.io.gfile''], docstring = ''File access.''\<rparr>]
           = pre @ d1 # mid @ d2 # post
         \<and> set (modules d1) \<inter> set (modules d2) \<noteq> {})
   \<and> mset [\<lparr>doc_file_name = ''tensorflow/python/ops/math_ops.py'', doc_line_no = 5,
              modules = [''tf.math''], docstring = ''Math.''\<rparr>,
            \<lparr>doc_file_name = ''tensorflow/python/ops/io_ops.py'', doc_line_no = 10,
              modules = [''tf.io''], docstring = ''Reading and writing.''\<rparr>]
       = mset [\<lparr>doc_file_name = ''tensorflow/python/ops/io_ops.py'', doc_line_no = 10,
              modules = [''tf.io''], docstring = ''Reading and writing.''\<rparr>,
            \<lparr>doc_file_name = ''tensorflow/python/ops/math_ops.py'', doc_line_no = 5,
              modules = [''tf.math''], docstring = ''Math.''\<rparr>]
   \<and> distinct (concat (map modules
          [\<lparr>doc_file_name = ''tensorflow/python/ops/io_ops.py'', doc_line_no = 10,
              modules = [''tf.io''], docstring = ''Reading and writing.''\<rparr>,
            \<lparr>doc_file_name = ''tensorflow/python/ops/math_ops.py'', doc_line_no = 5,
              modules = [''tf.math''], docstring = ''Math.''\<rparr>]))
   \<and> (\<exists>api. get_public_api []
          [\<lparr>doc_file_name = ''tensorflow/python/ops/math_ops.py'', doc_line_no = 5,
              modules = [''tf.math''], docstring = ''Math.''\<rparr>,
            \<lparr>doc_file_name = ''tensorflow/python/ops/io_ops.py'', doc_line_no = 10,
              modules = [''tf.io''], docstring = ''Reading and writing.''\<rparr>]
          [] [] ''tf'' '''' = Inr api)
   \<and> get_public_api []
        [\<lparr>doc_file_name = ''tensorflow/python/ops/io_ops.py'', doc_line_no = 10,
          modules = [''tf.io''], docstring = ''Reading and writing.''\<rparr>,
         \<lparr>doc_file_name = ''tensorflow/python/lib/io/file_io.py'', doc_line_no = 20,
          modules = [''tf.io'', ''tf.io.gfile''], docstring = ''File access.''\<rparr>,
         \<lparr>doc_file_name = ''tensorflow/python/ops/gen_io_ops.py'', doc_line_no = 30,
          modules = [''tf.io''], docstring = ''Generated.''\<rparr>]
        [] [] ''tf'' '''' =
       Inl (DocExportedTwiceError
         ''Docstring at tensorflow/python/lib/io/file_io.py:20 is registered for tf.io, which already has a registered docstring.'')"
proof -
  let ?a = "\<lparr>doc_file_name = ''tensorflow/python/ops/io_ops.py'', doc_line_no = 10,
          modules = [''tf.io''], docstring = ''Reading and writing.''\<rparr>"
  let ?b = "\<lparr>doc_file_name = ''tensorflow/python/lib/io/file_io.py'', doc_line_no = 20,
          modules = [''tf.io'', ''tf.io.gfile''], docstring = ''File access.''\<rparr>"
  let ?c = "\<lparr>doc_file_name = ''tensorflow/python/ops/math_ops.py'', doc_line_no = 5,
              modules = [''tf.math''], docstring = ''Math.''\<rparr>"
  have run: "get_public_api [] [?a, ?b] [] [] ''tf'' '''' =
       Inl (DocExportedTwiceError
         ''Docstring at tensorflow/python/lib/io/file_io.py:20 is registered for tf.io, which already has a registered docstring.'')"
    by (simp add: get_public_api_error keys_def doc_exported_twice_message_def str_int_def
      str_nat.simps digit_char_def)
  have three: "get_public_api []
        [?a, ?b, \<lparr>doc_file_name = ''tensorflow/python/ops/gen_io_ops.py'', doc_line_no = 30,
          modules = [''tf.io''], docstring = ''Generated.''\<rparr>] [] [] ''tf'' '''' =
       Inl (DocExportedTwiceError
         ''Docstring at tensorflow/python/lib/io/file_io.py:20 is registered for tf.io, which already has a registered docstring.'')"
    by (simp add: get_public_api_error keys_def doc_exported_twice_message_def str_int_def
      str_nat.simps digit_char_def)
  have d: "\<forall>d\<in>set [?a, ?b]. distinct (modules d)" by simp
  have two: "\<exists>pre d1 mid d2 post. [?a, ?b] = pre @ d1 # mid @ d2 # post
         \<and> set (modules d1) \<inter> set (modules d2) \<noteq> {}"
    using docstring_conflict [of "[]" "[?a, ?b]" "[]" "[]" "''tf''" "''''",
        THEN conjunct2, THEN conjunct1, THEN mp, OF d] run by blast
  have perm: "mset [?c, ?a] = mset [?a, ?c] \<and> distinct (concat (map modules [?a, ?c]))"
    by simp
  have ok: "\<exists>api. get_public_api [] [?c, ?a] [] [] ''tf'' '''' = Inr api"
    using docstring_conflict [of "[]" "[?a, ?c]" "[]" "[]" "''tf''" "''''",
        THEN conjunct2, THEN conjunct2, THEN conjunct2, THEN spec, THEN mp, OF perm] .
  show ?thesis using run two perm ok three by simp
qed

text \<open>
  Two runs that differ only in where the first of the two conflicting records was
  declared raise the same message: it names the second record's file and line and says
  nothing of the first's.
\<close>

theorem docstring_conflict_second_location_counterexample:
  "get_public_api []
      [\<lparr>doc_file_name = ''tensorflow/python/ops/io_ops.py'', doc_line_no = 10,
        modules = [''tf.io''], docstring = ''Reading and writing.''\<rparr>,
       \<lparr>doc_file_name = ''tensorflow/python/lib/io/file_io.py'', doc_line_no = 20,
        modules = [''tf.io''], docstring = ''File access.''\<rparr>] [] [] ''tf'' '''' =
     Inl (DocExportedTwiceError
       ''Docstring at tensorflow/python/lib/io/file_io.py:20 is registered for tf.io, which already has a registered docstring.'')
   \<and> get_public_api []
      [\<lparr>doc_file_name = ''tensorflow/python/framework/ops.py'', doc_line_no = 99,
        modules = [''tf.io''], docstring = ''Reading and writing.''\<rparr>,
       \<lparr>doc_file_name = ''tensorflow/python/lib/io/file_io.py'', doc_line_no = 20,
        modules = [''tf.io''], docstring = ''File access.''\<rparr>] [] [] ''tf'' '''' =
     Inl (DocExportedTwiceError
       ''Docstring at tensorflow/python/lib/io/file_io.py:20 is registered for tf.io, which already has a registered docstring.'')"
  by (simp add: get_public_api_error keys_def doc_exported_twice_message_def str_int_def
      str_nat.simps digit_char_def)








lemma split_on_not_Nil: "split_on c s \<noteq> []"
  by (induction s) (simp_all split: list.splits)

lemma split_on_word:
  "c \<notin> set w \<Longrightarrow> split_on c (w @ c # rest) = w # split_on c rest"
  by (induction w) auto

lemma split_on_last: "c \<notin> set w \<Longrightarrow> split_on c w = [w]"
  by (induction w) auto

lemma set_str_replace: "set (str_replace s old new) \<subseteq> set s \<union> set new"
proof (induction s old new rule: str_replace.induct)
  case (1 old new)
  then show ?case by auto
next
  case (2 c cs old new)
  show ?case
  proof (cases "old = []")
    case True
    then show ?thesis using 2(1) by auto
  next
    case False
    show ?thesis
    proof (cases "startswith (c # cs) old")
      case True
      have "set (drop (length old) (c # cs)) \<subseteq> set (c # cs)" by (rule set_drop_subset)
      then show ?thesis using 2(2) [OF False True] False True by auto
    next
      case nsw: False
      then show ?thesis using 2(3) [OF False nsw] False by auto
    qed
  qed
qed

lemma set_removeprefix: "set (removeprefix s p) \<subseteq> set s"
  by (simp add: removeprefix_def set_drop_subset)

lemma set_removesuffix: "set (removesuffix s p) \<subseteq> set s"
  by (simp add: removesuffix_def set_take_subset)

lemma set_strip: "set (strip s c) \<subseteq> set s"
proof -
  have "set (dropWhile (\<lambda>x. x = c) (rev (dropWhile (\<lambda>x. x = c) s)))
          \<subseteq> set (rev (dropWhile (\<lambda>x. x = c) s))"
    by (rule set_dropWhileD [THEN subsetI])
  also have "\<dots> \<subseteq> set s" using set_dropWhileD [of _ "\<lambda>x. x = c" s] by auto
  finally show ?thesis by (simp add: strip_def)
qed

lemma set_fold_removeprefix:
  "set (fold (\<lambda>prefix p. removeprefix p prefix) ps s) \<subseteq> set s"
proof (induction ps arbitrary: s)
  case Nil
  show ?case by simp
next
  case (Cons p ps)
  have "set (fold (\<lambda>prefix p. removeprefix p prefix) ps (removeprefix s p)) \<subseteq> set (removeprefix s p)"
    by (rule Cons.IH)
  then show ?case using set_removeprefix [of s p] by auto
qed

lemma set_get_import_path:
  "set (get_import_path file fps mp) \<subseteq> set mp \<union> set file \<union> {CHR ''.''}"
proof -
  let ?p1 = "fold (\<lambda>prefix p. removeprefix p prefix) fps file"
  let ?p4 = "strip (removesuffix (removesuffix ?p1 ''.py'') ''__init__'') CHR ''/''"
  have "set ?p4 \<subseteq> set file"
    using set_strip set_removesuffix set_fold_removeprefix by (meson subset_trans)
  moreover have "set (str_replace ?p4 ''/'' ''.'') \<subseteq> set ?p4 \<union> set ''.''"
    by (rule set_str_replace)
  ultimately show ?thesis by (auto simp: get_import_path_def Let_def)
qed

lemma import_binds_get_import:
  assumes "CHR '' '' \<notin> set (get_import_path (file_name (exported_symbol e)) fps mp)"
    "CHR '' '' \<notin> set (symbol_name (exported_symbol e))" "CHR '' '' \<notin> set (ep_name e)"
  shows "import_binds (get_import e fps mp False) = Some (ep_name e)"
proof -
  let ?P = "get_import_path (file_name (exported_symbol e)) fps mp"
  let ?S = "symbol_name (exported_symbol e)"
  let ?N = "str_int (line_no (exported_symbol e))"
  show ?thesis
  proof (cases "ep_name e = ?S")
    case True
    have "get_import e fps mp False = ''from'' @ CHR '' '' # ?P @ CHR '' '' # ''import'' @ CHR '' '' # ?S
            @ CHR '' '' # ''#'' @ CHR '' '' # (''line: '' @ ?N)"
      using True by (simp add: get_import_def Let_def)
    then have "split_on CHR '' '' (get_import e fps mp False) =
        ''from'' # ?P # ''import'' # ?S # ''#'' # split_on CHR '' '' (''line: '' @ ?N)"
      using assms by (simp only: split_on_word) (simp add: split_on_word)
    then show ?thesis using True by (simp add: import_binds_def Let_def)
  next
    case False
    have "get_import e fps mp False = ''from'' @ CHR '' '' # ?P @ CHR '' '' # ''import'' @ CHR '' '' # ?S
            @ CHR '' '' # ''as'' @ CHR '' '' # ep_name e @ CHR '' '' # (''# line: '' @ ?N)"
      using False by (simp add: get_import_def Let_def)
    then have "split_on CHR '' '' (get_import e fps mp False) =
        ''from'' # ?P # ''import'' # ?S # ''as'' # ep_name e # split_on CHR '' '' (''# line: '' @ ?N)"
      using assms by (simp only: split_on_word) (simp add: split_on_word)
    then show ?thesis by (simp add: import_binds_def Let_def)
  qed
qed

lemma table_key_get_import:
  assumes "CHR 0x27 \<notin> set (ep_name e)"
  shows "table_key (get_import e fps mp True) = Some (ep_name e)"
proof -
  have "\<exists>rest. get_import e fps mp True = ''  '' @ sq @ ep_name e @ sq @ rest"
    by (simp add: get_import_def Let_def)
  then obtain rest where r: "get_import e fps mp True = ''  '' @ sq @ ep_name e @ sq @ rest" ..
  have "takeWhile (\<lambda>c. c \<noteq> CHR 0x27) (ep_name e @ sq @ rest) = ep_name e"
    using assms by (auto simp: takeWhile_tail)
  then show ?thesis by (simp add: r table_key_def startswith_def)
qed

lemma import_binds_generated:
  assumes "CHR '' '' \<notin> set imp"
  shows "import_binds (generated_import_line False imp) = Some (last_segment imp)"
proof -
  let ?A = "slice_to imp (str_rfind CHR ''.'' imp)"
  let ?B = "slice_from imp (str_rfind CHR ''.'' imp + 1)"
  have a: "CHR '' '' \<notin> set ?A" using assms set_take_subset by (fastforce simp: slice_to_def)
  have b: "CHR '' '' \<notin> set ?B" using assms set_drop_subset by (fastforce simp: slice_from_def)
  have "generated_import_line False imp = ''from'' @ CHR '' '' # ?A @ CHR '' '' # ''import'' @ CHR '' '' # ?B"
    by (simp add: generated_import_line_def Let_def)
  then have "split_on CHR '' '' (generated_import_line False imp) = [''from'', ?A, ''import'', ?B]"
    using a b by (simp only: split_on_word) (simp add: split_on_word split_on_last)
  then show ?thesis by (simp add: import_binds_def Let_def last_segment_def)
qed

lemma table_key_generated:
  assumes "CHR 0x27 \<notin> set imp"
  shows "table_key (generated_import_line True imp) = Some (last_segment imp)"
proof -
  let ?B = "slice_from imp (str_rfind CHR ''.'' imp + 1)"
  have b: "CHR 0x27 \<notin> set ?B" using assms set_drop_subset by (fastforce simp: slice_from_def)
  have "\<exists>rest. generated_import_line True imp = ''  '' @ sq @ ?B @ sq @ rest"
    by (simp add: generated_import_line_def Let_def)
  then obtain rest where r: "generated_import_line True imp = ''  '' @ sq @ ?B @ sq @ rest" ..
  have "takeWhile (\<lambda>c. c \<noteq> CHR 0x27) (?B @ sq @ rest) = ?B"
    using b by (auto simp: takeWhile_tail)
  then show ?thesis by (simp add: r table_key_def startswith_def last_segment_def)
qed

lemma plain_rewrite_import:
  assumes "plain imp" "\<forall>r. rw = Some r \<longrightarrow> plain r"
  shows "plain (rewrite_import op rw imp)"
proof (cases rw)
  case None
  then show ?thesis using assms by (simp add: rewrite_import_def)
next
  case (Some r)
  then have "plain r" using assms by simp
  then show ?thesis
    using assms(1) set_str_replace [of imp op r] Some
    by (auto simp: rewrite_import_def plain_def)
qed

lemma set_imports_lines:
  "f ` set (imports_lines iter_e iter_s m op sbm gim fps mp lazy rw) =
     (\<lambda>imp. f (generated_import_line lazy (rewrite_import op rw imp))) ` set (iter_s (dd_lookup gim m))
     \<union> (\<lambda>e. f (get_import e fps mp lazy)) ` set (iter_e (dd_lookup sbm m))"
  by (simp add: imports_lines_def Let_def image_Un image_image)

text \<open>
  Claim C7.  For a module of an aggregate, the names that the eager lines bind (the child
  module of each generated import, and each symbol under its name or alias) are the keys
  of the lazy lines, whatever the order in which either run iterates over the two sets:
  both are the names of the module's entrypoints together with the last segments of its
  generated imports.  The names, the file names and the prefix are taken without spaces
  and the exposed names without quotes, as identifiers and paths are.
\<close>

theorem eager_and_lazy_expose_same_names:
  assumes "set (iter_e (dd_lookup symbols_by_module m)) = dd_lookup symbols_by_module m"
    and "set (iter_e' (dd_lookup symbols_by_module m)) = dd_lookup symbols_by_module m"
    and "set (iter_s (dd_lookup generated_imports_by_module m)) =
           dd_lookup generated_imports_by_module m"
    and "set (iter_s' (dd_lookup generated_imports_by_module m)) =
           dd_lookup generated_imports_by_module m"
    and "CHR '' '' \<notin> set module_prefix"
    and "\<forall>e\<in>dd_lookup symbols_by_module m.
           plain (ep_name e) \<and> CHR '' '' \<notin> set (symbol_name (exported_symbol e))
           \<and> CHR '' '' \<notin> set (file_name (exported_symbol e))"
    and "\<forall>imp\<in>dd_lookup generated_imports_by_module m. plain imp"
    and "\<forall>r. subpackage_rewrite = Some r \<longrightarrow> plain r"
  shows "set (map import_binds
            (imports_lines iter_e iter_s m output_package symbols_by_module
               generated_imports_by_module file_prefixes_to_strip module_prefix False
               subpackage_rewrite)) =
         set (map table_key
            (imports_lines iter_e' iter_s' m output_package symbols_by_module
               generated_imports_by_module file_prefixes_to_strip module_prefix True
               subpackage_rewrite))
       \<and> set (map table_key
            (imports_lines iter_e' iter_s' m output_package symbols_by_module
               generated_imports_by_module file_prefixes_to_strip module_prefix True
               subpackage_rewrite)) =
         Some ` (ep_name ` dd_lookup symbols_by_module m
                 \<union> (\<lambda>imp. last_segment (rewrite_import output_package subpackage_rewrite imp))
                     ` dd_lookup generated_imports_by_module m)"
proof -
  let ?S = "dd_lookup symbols_by_module m"
  let ?G = "dd_lookup generated_imports_by_module m"
  let ?rw = "rewrite_import output_package subpackage_rewrite"
  let ?N = "Some ` (ep_name ` ?S \<union> (\<lambda>imp. last_segment (?rw imp)) ` ?G)"
  have sym_e: "import_binds (get_import e file_prefixes_to_strip module_prefix False) = Some (ep_name e)"
    if "e \<in> ?S" for e
  proof (rule import_binds_get_import)
    show "CHR '' '' \<notin> set (get_import_path (file_name (exported_symbol e))
            file_prefixes_to_strip module_prefix)"
      using set_get_import_path [of "file_name (exported_symbol e)" file_prefixes_to_strip
          module_prefix] assms(5,6) that by auto
  qed (use assms(6) that in \<open>auto simp: plain_def\<close>)
  have sym_l: "table_key (get_import e file_prefixes_to_strip module_prefix True) = Some (ep_name e)"
    if "e \<in> ?S" for e
    using table_key_get_import assms(6) that by (simp add: plain_def)
  have pl: "plain (?rw imp)" if "imp \<in> ?G" for imp
    using plain_rewrite_import assms(7,8) that by blast
  have gen_e: "import_binds (generated_import_line False (?rw imp)) = Some (last_segment (?rw imp))"
    if "imp \<in> ?G" for imp
    using import_binds_generated pl [OF that] by (simp add: plain_def)
  have gen_l: "table_key (generated_import_line True (?rw imp)) = Some (last_segment (?rw imp))"
    if "imp \<in> ?G" for imp
    using table_key_generated pl [OF that] by (simp add: plain_def)
  have eager: "set (map import_binds
            (imports_lines iter_e iter_s m output_package symbols_by_module
               generated_imports_by_module file_prefixes_to_strip module_prefix False
               subpackage_rewrite)) = ?N"
    unfolding set_map set_imports_lines assms(1,3)
    using sym_e gen_e by (auto simp: image_Un image_image)
  have lazy: "set (map table_key
            (imports_lines iter_e' iter_s' m output_package symbols_by_module
               generated_imports_by_module file_prefixes_to_strip module_prefix True
               subpackage_rewrite)) = ?N"
    unfolding set_map set_imports_lines assms(2,4)
    using sym_l gen_l by (auto simp: image_Un image_image)
  show ?thesis using eager lazy by simp
qed

theorem eager_and_lazy_expose_same_names_witness:
  "set (map import_binds
     (imports_lines
        (\<lambda>_. [\<lparr>ep_module = ''tf.io'', ep_name = ''GFile'',
                exported_symbol = \<lparr>file_name = ''io/file_io.py'', line_no = 41,
                  symbol_name = ''FileIO'', v1_apis = [], v2_apis = [''v2.io.GFile'']\<rparr>\<rparr>])
        (\<lambda>_. [''tf.io.gfile'']) ''tf.io'' ''tf''
        [(''tf.io'', {\<lparr>ep_module = ''tf.io'', ep_name = ''GFile'',
                exported_symbol = \<lparr>file_name = ''io/file_io.py'', line_no = 41,
                  symbol_name = ''FileIO'', v1_apis = [], v2_apis = [''v2.io.GFile'']\<rparr>\<rparr>})]
        [(''tf.io'', {''tf.io.gfile''})] [] '''' False None))
   = set (map table_key
     (imports_lines
        (\<lambda>_. [\<lparr>ep_module = ''tf.io'', ep_name = ''GFile'',
                exported_symbol = \<lparr>file_name = ''io/file_io.py'', line_no = 41,
                  symbol_name = ''FileIO'', v1_apis = [], v2_apis = [''v2.io.GFile'']\<rparr>\<rparr>])
        (\<lambda>_. [''tf.io.gfile'']) ''tf.io'' ''tf''
        [(''tf.io'', {\<lparr>ep_module = ''tf.io'', ep_name = ''GFile'',
                exported_symbol = \<lparr>file_name = ''io/file_io.py'', line_no = 41,
                  symbol_name = ''FileIO'', v1_apis = [], v2_apis = [''v2.io.GFile'']\<rparr>\<rparr>})]
        [(''tf.io'', {''tf.io.gfile''})] [] '''' True None))
   \<and> imports_lines
        (\<lambda>_. [\<lparr>ep_module = ''tf.io'', ep_name = ''GFile'',
                exported_symbol = \<lparr>file_name = ''io/file_io.py'', line_no = 41,
                  symbol_name = ''FileIO'', v1_apis = [], v2_apis = [''v2.io.GFile'']\<rparr>\<rparr>])
        (\<lambda>_. [''tf.io.gfile'']) ''tf.io'' ''tf''
        [(''tf.io'', {\<lparr>ep_module = ''tf.io'', ep_name = ''GFile'',
                exported_symbol = \<lparr>file_name = ''io/file_io.py'', line_no = 41,
                  symbol_name = ''FileIO'', v1_apis = [], v2_apis = [''v2.io.GFile'']\<rparr>\<rparr>})]
        [(''tf.io'', {''tf.io.gfile''})] [] '''' False None
      = [''from tf.io import gfile'', ''from io.file_io import FileIO as GFile # line: 41'']"
proof -
  let ?e = "\<lparr>ep_module = ''tf.io'', ep_name = ''GFile'',
                exported_symbol = \<lparr>file_name = ''io/file_io.py'', line_no = 41,
                  symbol_name = ''FileIO'', v1_apis = [], v2_apis = [''v2.io.GFile'']\<rparr>\<rparr>"
  let ?sbm = "[(''tf.io'', {?e})]"
  let ?gim = "[(''tf.io'', {''tf.io.gfile''})]"
  have p: "get_import_path ''io/file_io.py'' [] '''' = ''io.file_io''"
    by (simp add: get_import_path_def removesuffix_def endswith_def strip_def startswith_def)
  have lines: "imports_lines (\<lambda>_. [?e]) (\<lambda>_. [''tf.io.gfile'']) ''tf.io'' ''tf'' ?sbm ?gim
      [] '''' False None
      = [''from tf.io import gfile'', ''from io.file_io import FileIO as GFile # line: 41'']"
    by (simp add: imports_lines_def generated_import_line_def rewrite_import_def
        get_import_def p slice_to_def slice_from_def slice_index_def
        str_int_def str_nat.simps digit_char_def Let_def)
  have "set (map import_binds
     (imports_lines (\<lambda>_. [?e]) (\<lambda>_. [''tf.io.gfile'']) ''tf.io'' ''tf'' ?sbm ?gim
        [] '''' False None))
   = set (map table_key
     (imports_lines (\<lambda>_. [?e]) (\<lambda>_. [''tf.io.gfile'']) ''tf.io'' ''tf'' ?sbm ?gim
        [] '''' True None))"
    by (rule eager_and_lazy_expose_same_names [THEN conjunct1])
       (simp_all add: dd_lookup_def plain_def)
  then show ?thesis using lines by simp
qed

section \<open>Properties of the nested compat files\<close>

lemma digit_char_codes: "\<forall>d\<in>set [0..<10]. of_char (digit_char d) = (48 + d :: nat)"
  by code_simp

lemma digit_char_code: "d < 10 \<Longrightarrow> of_char (digit_char d) = (48 + d :: nat)"
  using digit_char_codes by simp

lemma digit_char_inj:
  assumes "a < 10" "b < 10" "digit_char a = digit_char b"
  shows "a = b"
proof -
  have "(of_char (digit_char a) :: nat) = of_char (digit_char b)"
    by (rule arg_cong [OF assms(3)])
  then have "48 + a = 48 + b"
    by (simp only: digit_char_code [OF assms(1)] digit_char_code [OF assms(2)])
  then show ?thesis by (rule add_left_imp_eq)
qed

lemma digit_char_not_minus: "d < 10 \<Longrightarrow> digit_char d \<noteq> CHR ''-''"
proof
  assume d: "d < 10" and eq: "digit_char d = CHR ''-''"
  have "(of_char (digit_char d) :: nat) = of_char (CHR ''-'')"
    by (rule arg_cong [OF eq])
  then have "48 + d = (45 :: nat)"
    by (simp only: digit_char_code [OF d]) simp
  then show False by arith
qed

lemma str_nat_small: "n < 10 \<Longrightarrow> str_nat n = [digit_char n]"
  by (subst str_nat.simps) simp

lemma str_nat_big: "\<not> n < 10 \<Longrightarrow> str_nat n = str_nat (n div 10) @ [digit_char (n mod 10)]"
  by (subst str_nat.simps) simp

lemma str_nat_not_Nil: "str_nat n \<noteq> []"
  by (cases "n < 10") (simp_all add: str_nat_small str_nat_big)

lemma hd_str_nat: "hd (str_nat n) \<noteq> CHR ''-''"
proof (induction n rule: str_nat.induct)
  case (1 n)
  show ?case
  proof (cases "n < 10")
    case True
    then show ?thesis by (simp add: str_nat_small digit_char_not_minus)
  next
    case False
    then show ?thesis
      using 1 [OF False] str_nat_not_Nil [of "n div 10"] by (simp add: str_nat_big)
  qed
qed

lemma str_nat_inj: "str_nat a = str_nat b \<Longrightarrow> a = b"
proof (induction a arbitrary: b rule: str_nat.induct)
  case (1 a)
  show ?case
  proof (cases "a < 10")
    case a: True
    show ?thesis
    proof (cases "b < 10")
      case True
      then show ?thesis
        using "1.prems" a digit_char_inj [of a b] by (simp add: str_nat_small)
    next
      case False
      then show ?thesis
        using "1.prems" a str_nat_not_Nil [of "b div 10"] by (simp add: str_nat_small str_nat_big)
    qed
  next
    case a: False
    show ?thesis
    proof (cases "b < 10")
      case True
      then show ?thesis
        using "1.prems" a str_nat_not_Nil [of "a div 10"] by (simp add: str_nat_small str_nat_big)
    next
      case False
      then have "str_nat (a div 10) = str_nat (b div 10)" "digit_char (a mod 10) = digit_char (b mod 10)"
        using "1.prems" a by (simp_all add: str_nat_big)
      then have "a div 10 = b div 10" "a mod 10 = b mod 10"
        using "1.IH" [OF a] digit_char_inj [of "a mod 10" "b mod 10"] by simp_all
      then show ?thesis by (metis div_mult_mod_eq)
    qed
  qed
qed

lemma str_int_inj: "str_int i = str_int j \<Longrightarrow> i = j"
proof -
  assume eq: "str_int i = str_int j"
  have neg: "hd (str_int k) = CHR ''-'' \<longleftrightarrow> k < 0" for k
    using hd_str_nat [of "nat k"] by (simp add: str_int_def)
  show ?thesis
  proof (cases "i < 0")
    case True
    then have j: "j < 0" using neg [of i] neg [of j] eq by simp
    then have "str_nat (nat (- i)) = str_nat (nat (- j))" using True eq by (simp add: str_int_def)
    then have "nat (- i) = nat (- j)" by (rule str_nat_inj)
    then show ?thesis using True j by simp
  next
    case False
    then have j: "\<not> j < 0" using neg [of i] neg [of j] eq by simp
    then have "str_nat (nat i) = str_nat (nat j)" using False eq by (simp add: str_int_def)
    then have "nat i = nat j" by (rule str_nat_inj)
    then show ?thesis using False j by simp
  qed
qed

lemma compat_version_package_inj:
  "compat_version_package op v = compat_version_package op w \<longleftrightarrow> v = w"
  using str_int_inj by (auto simp: compat_version_package_def)

lemma cell_set_cell: "cell (set_cell h a s) b = (if b = a then s else cell h b)"
  by (simp add: set_cell_def)

lemma fresh_set_cell: "fresh (set_cell h a s) = fresh h"
  by (simp add: set_cell_def)

lemma set_cell_twice: "set_cell (set_cell h a s) a t = set_cell h a t"
  by (simp add: set_cell_def)

lemma set_cell_same: "set_cell h a (cell h a) = h"
  by (simp add: set_cell_def)

lemma map_of_view: "map_of (view h d) k = map_option (cell h) (map_of d k)"
  by (induction d) (simp_all add: view_def split: prod.splits)

lemma dd_lookup_view:
  "dd_lookup (view h d) k = (case map_of d k of None \<Rightarrow> {} | Some a \<Rightarrow> cell h a)"
  by (simp add: dd_lookup_def map_of_view split: option.splits)

lemma dd_ref_present: "map_of d k = Some a \<Longrightarrow> dd_ref h d k = (a, h, d)"
  by (simp add: dd_ref_def)

lemma remove_compat_edges_ok:
  assumes "map_of d (op @ ''.compat'') = Some a"
    and "distinct vs" and "\<forall>v\<in>set vs. compat_version_package op v \<in> cell h a"
  shows "remove_compat_edges h d op vs =
           Inr (set_cell h a (cell h a - compat_version_package op ` set vs), d)"
  using assms(2,3)
proof (induction vs arbitrary: h)
  case Nil
  show ?case by (simp add: set_cell_same)
next
  case (Cons v vs)
  let ?e = "compat_version_package op v"
  let ?h = "set_cell h a (cell h a - {?e})"
  have e: "?e \<in> cell h a" using Cons.prems(2) by simp
  have step: "remove_compat_edges h d op (v # vs) = remove_compat_edges ?h d op vs"
    using e by (simp add: dd_ref_present [OF assms(1)] Let_def)
  have "\<forall>w\<in>set vs. compat_version_package op w \<in> cell ?h a"
  proof
    fix w assume w: "w \<in> set vs"
    then have "w \<noteq> v" using Cons.prems(1) by auto
    then have "compat_version_package op w \<noteq> ?e" by (simp add: compat_version_package_inj)
    then show "compat_version_package op w \<in> cell ?h a"
      using Cons.prems(2) w by (simp add: cell_set_cell)
  qed
  moreover have "distinct vs" using Cons.prems(1) by simp
  ultimately have "remove_compat_edges ?h d op vs =
      Inr (set_cell ?h a (cell ?h a - compat_version_package op ` set vs), d)"
    by (rule Cons.IH [rotated])
  moreover have "cell h a - {?e} - compat_version_package op ` set vs
      = cell h a - insert ?e (compat_version_package op ` set vs)" by auto
  ultimately show ?case
    unfolding step by (simp add: cell_set_cell set_cell_twice)
qed

lemma remove_compat_edges_Inr:
  assumes "map_of d (op @ ''.compat'') = Some a"
    and "remove_compat_edges h d op vs = Inr r"
  shows "distinct vs \<and> (\<forall>v\<in>set vs. compat_version_package op v \<in> cell h a)"
  using assms(2)
proof (induction vs arbitrary: h)
  case Nil
  show ?case by simp
next
  case (Cons v vs)
  let ?e = "compat_version_package op v"
  let ?h = "set_cell h a (cell h a - {?e})"
  have e: "?e \<in> cell h a"
    using Cons.prems by (simp add: dd_ref_present [OF assms(1)] Let_def split: if_splits)
  then have "remove_compat_edges ?h d op vs = Inr r"
    using Cons.prems by (simp add: dd_ref_present [OF assms(1)] Let_def)
  from Cons.IH [OF this]
  have d: "distinct vs" and all: "\<forall>w\<in>set vs. compat_version_package op w \<in> cell ?h a" by simp_all
  have "v \<notin> set vs"
  proof
    assume "v \<in> set vs"
    then have "?e \<in> cell ?h a" using all by blast
    then show False by (simp add: cell_set_cell)
  qed
  moreover have "\<forall>w\<in>set vs. compat_version_package op w \<in> cell h a"
    using all by (simp add: cell_set_cell)
  ultimately show ?case using d e by simp
qed

lemma remove_compat_edges_absent:
  assumes "map_of d (op @ ''.compat'') = None"
  shows "remove_compat_edges h d op (v # vs) = Inl (KeyError (compat_version_package op v))"
  using assms by (simp add: dd_ref_def Let_def)

lemma remove_compat_edges_Inl:
  "remove_compat_edges h d op vs = Inl e \<Longrightarrow>
     \<exists>v\<in>set vs. e = KeyError (compat_version_package op v)"
proof (induction vs arbitrary: h d)
  case Nil
  then show ?case by simp
next
  case (Cons v vs)
  obtain a h' d' where r: "dd_ref h d (op @ ''.compat'') = (a, h', d')"
    by (cases "dd_ref h d (op @ ''.compat'')") auto
  show ?case
  proof (cases "compat_version_package op v \<in> cell h' a")
    case True
    then have "remove_compat_edges (set_cell h' a (cell h' a - {compat_version_package op v})) d' op vs = Inl e"
      using Cons.prems r by (simp add: Let_def)
    from Cons.IH [OF this] show ?thesis by auto
  next
    case False
    then show ?thesis using Cons.prems r by (simp add: Let_def)
  qed
qed

lemma remove_compat_edges_iff:
  "(\<exists>r. remove_compat_edges h d op vs = Inr r) \<longleftrightarrow>
     distinct vs \<and> (\<forall>v\<in>set vs. compat_version_package op v
                        \<in> dd_lookup (view h d) (op @ ''.compat''))"
proof (cases "map_of d (op @ ''.compat'')")
  case None
  show ?thesis
  proof (cases vs)
    case Nil
    then show ?thesis by simp
  next
    case (Cons v vs')
    have "remove_compat_edges h d op vs = Inl (KeyError (compat_version_package op v))"
      unfolding Cons by (rule remove_compat_edges_absent [OF None])
    then have "\<not> (\<exists>r. remove_compat_edges h d op vs = Inr r)" by simp
    moreover have "dd_lookup (view h d) (op @ ''.compat'') = {}"
      by (simp add: dd_lookup_view None)
    moreover have "v \<in> set vs" by (simp add: Cons)
    ultimately show ?thesis by blast
  qed
next
  case (Some a)
  show ?thesis
    using remove_compat_edges_ok [OF Some, of vs h] remove_compat_edges_Inr [OF Some, of h vs]
    by (auto simp: dd_lookup_view Some)
qed

lemma heap_extends_refl: "heap_extends h h"
  by (simp add: heap_extends_def)

lemma heap_extends_trans: "heap_extends h1 h2 \<Longrightarrow> heap_extends h2 h3 \<Longrightarrow> heap_extends h1 h3"
  by (simp add: heap_extends_def)

lemma dict_extends_refl: "dict_extends d d"
  by (simp add: dict_extends_def)

lemma dict_extends_trans: "dict_extends d1 d2 \<Longrightarrow> dict_extends d2 d3 \<Longrightarrow> dict_extends d1 d3"
  by (simp add: dict_extends_def)

lemma dd_ref_frame:
  assumes "dd_ref h d k = (a, h', d')"
  shows "heap_extends h h'" "dict_extends d d'" "map_of d' k = Some a"
proof -
  show "heap_extends h h'"
    using assms by (auto simp: dd_ref_def heap_extends_def split: option.splits)
  show "dict_extends d d'"
    using assms by (auto simp: dd_ref_def dict_extends_def split: option.splits)
  show "map_of d' k = Some a"
    using assms by (auto simp: dd_ref_def map_add_def split: option.splits)
qed

lemma gen_init_file_frame:
  assumes "gen_init_file iter_e iter_s od op v docs tpl fps lazy mp rw rfn m (h, s, g, fs)
             = (h', s', g', fs')"
  shows "heap_extends h h' \<and> dict_extends g g'
         \<and> map fst fs' = map fst fs @ (if length m < length op then [] else [m])"
proof (cases "length m < length op")
  case True
  then show ?thesis
    using assms by (simp add: gen_init_file_def heap_extends_refl dict_extends_refl)
next
  case False
  obtain a h1 g1 where r: "dd_ref h g m = (a, h1, g1)" by (cases "dd_ref h g m") auto
  have "h' = h1" "g' = g1" "map fst fs' = map fst fs @ [m]"
    using assms False r by (auto simp: gen_init_file_def Let_def)
  then show ?thesis using dd_ref_frame [OF r] False by simp
qed

lemma fold_gen_init_file_frame:
  assumes "fold (gen_init_file iter_e iter_s od op v docs tpl fps lazy mp rw rfn) ms (h, s, g, fs)
             = (h', s', g', fs')"
  shows "heap_extends h h' \<and> dict_extends g g'
         \<and> map fst fs' = map fst fs @ filter (\<lambda>m. \<not> length m < length op) ms"
  using assms
proof (induction ms arbitrary: h s g fs)
  case Nil
  then show ?case by (simp add: heap_extends_refl dict_extends_refl)
next
  case (Cons m ms)
  obtain h1 s1 g1 fs1 where
    st: "gen_init_file iter_e iter_s od op v docs tpl fps lazy mp rw rfn m (h, s, g, fs)
           = (h1, s1, g1, fs1)"
    by (metis prod_cases4)
  have "fold (gen_init_file iter_e iter_s od op v docs tpl fps lazy mp rw rfn) ms (h1, s1, g1, fs1)
          = (h', s', g', fs')"
    using Cons.prems by (simp add: st)
  from Cons.IH [OF this] gen_init_file_frame [OF st]
  show ?case
    using heap_extends_trans dict_extends_trans by (cases "length m < length op") auto
qed

lemma gen_init_files_frame:
  assumes "gen_init_files iter_e iter_s od op v h s g docs tpl fps lazy mp rw rfn
             = (h', s', g', fs)"
  shows "heap_extends h h'" "dict_extends g g'"
    "map fst fs = filter (\<lambda>m. length op \<le> length m) (iter_s (set (keys s) \<union> set (keys g)))"
proof -
  have "fold (gen_init_file iter_e iter_s od op v docs tpl fps lazy mp rw rfn)
          (iter_s (set (keys s) \<union> set (keys g))) (h, s, g, []) = (h', s', g', fs)"
    using assms by (simp add: gen_init_files_def Let_def)
  from fold_gen_init_file_frame [OF this]
  show "heap_extends h h'" "dict_extends g g'"
    "map fst fs = filter (\<lambda>m. length op \<le> length m) (iter_s (set (keys s) \<union> set (keys g)))"
    by (simp_all add: not_less)
qed

lemma add_compat_edges_present:
  assumes "map_of d (op @ ''.compat'') = Some a"
  shows "add_compat_edges h d op vs =
           (set_cell h a (cell h a \<union> compat_version_package op ` set vs), d)"
proof (induction vs arbitrary: h)
  case Nil
  show ?case by (simp add: set_cell_same)
next
  case (Cons v vs)
  have "insert (compat_version_package op v) (cell h a) \<union> compat_version_package op ` set vs
      = cell h a \<union> insert (compat_version_package op v) (compat_version_package op ` set vs)"
    by auto
  then show ?case
    by (simp add: dd_ref_present [OF assms] Let_def Cons.IH cell_set_cell set_cell_twice)
qed




lemma remove_compat_edges_result:
  assumes "remove_compat_edges h d op vs = Inr (h1, d1)"
  shows "d1 = d"
    and "h1 = (case map_of d (op @ ''.compat'') of
                 None \<Rightarrow> h
               | Some a \<Rightarrow> set_cell h a (cell h a - compat_version_package op ` set vs))"
    and "map_of d (op @ ''.compat'') = None \<Longrightarrow> vs = []"
proof -
  have "d1 = d \<and> h1 = (case map_of d (op @ ''.compat'') of
                 None \<Rightarrow> h
               | Some a \<Rightarrow> set_cell h a (cell h a - compat_version_package op ` set vs))
        \<and> (map_of d (op @ ''.compat'') = None \<longrightarrow> vs = [])"
  proof (cases "map_of d (op @ ''.compat'')")
    case None
    have "vs = []"
    proof (cases vs)
      case (Cons v vs')
      then show ?thesis
        using remove_compat_edges_absent [OF None, of h v vs'] assms by simp
    qed simp
    then show ?thesis using assms None by simp
  next
    case (Some a)
    from remove_compat_edges_Inr [OF Some assms]
    have "distinct vs" "\<forall>v\<in>set vs. compat_version_package op v \<in> cell h a" by simp_all
    from remove_compat_edges_ok [OF Some this, of ] assms
    show ?thesis using Some by simp
  qed
  then show "d1 = d"
    and "h1 = (case map_of d (op @ ''.compat'') of
                 None \<Rightarrow> h
               | Some a \<Rightarrow> set_cell h a (cell h a - compat_version_package op ` set vs))"
    and "map_of d (op @ ''.compat'') = None \<Longrightarrow> vs = []"
    by simp_all
qed

lemma add_compat_edges_result:
  assumes "dict_extends d g2" "map_of d (op @ ''.compat'') = None \<longrightarrow> vs = []"
  shows "fst (add_compat_edges h2 g2 op vs) =
           (case map_of d (op @ ''.compat'') of
              None \<Rightarrow> h2
            | Some a \<Rightarrow> set_cell h2 a (cell h2 a \<union> compat_version_package op ` set vs))"
proof (cases "map_of d (op @ ''.compat'')")
  case None
  then show ?thesis using assms(2) by simp
next
  case (Some a)
  then have "map_of g2 (op @ ''.compat'') = Some a" using assms(1) by (simp add: dict_extends_def)
  then show ?thesis using Some by (simp add: add_compat_edges_present)
qed

lemma gen_nested_compat_files_Inr_iff:
  "(\<exists>r. gen_nested_compat_files iter_e iter_s od op v h sbm gim docs tpl fps lazy vs mp = Inr r)
     \<longleftrightarrow> (\<exists>r. remove_compat_edges h gim op vs = Inr r)"
  by (auto simp: gen_nested_compat_files_def Let_def split: sum.splits prod.splits)

lemma gen_nested_compat_files_Inl_iff:
  "gen_nested_compat_files iter_e iter_s od op v h sbm gim docs tpl fps lazy vs mp = Inl e
     \<longleftrightarrow> remove_compat_edges h gim op vs = Inl e"
  by (auto simp: gen_nested_compat_files_def Let_def split: sum.splits prod.splits)

lemma gen_nested_compat_files_stages:
  assumes "gen_nested_compat_files iter_e iter_s od op v h sbm gim docs tpl fps lazy vs mp
             = Inr (h', files)"
  shows "\<exists>h1 h2 s2 g2 g3.
           remove_compat_edges h gim op vs = Inr (h1, gim)
           \<and> gen_init_files iter_e iter_s od op v h1 (nested_compat_symbols op sbm) gim docs tpl
                fps lazy mp (Some ((op @ ''.compat'') @ ''.v'' @ str_int v)) ''__init__.py''
               = (h2, s2, g2, files)
           \<and> add_compat_edges h2 g2 op vs = (h', g3)"
proof -
  obtain h1 d1 where r: "remove_compat_edges h gim op vs = Inr (h1, d1)"
    using assms by (auto simp: gen_nested_compat_files_def Let_def split: sum.splits prod.splits)
  have d1: "d1 = gim" using remove_compat_edges_result(1) [OF r] .
  obtain h2 s2 g2 fs where
    g: "gen_init_files iter_e iter_s od op v h1 (nested_compat_symbols op sbm) gim docs tpl
          fps lazy mp (Some ((op @ ''.compat'') @ ''.v'' @ str_int v)) ''__init__.py''
        = (h2, s2, g2, fs)"
    by (metis prod_cases4)
  obtain h3 g3 where a: "add_compat_edges h2 g2 op vs = (h3, g3)" by force
  have "h' = h3" "files = fs"
    using assms r d1 g a by (simp_all add: gen_nested_compat_files_def Let_def)
  then show ?thesis using r d1 g a by blast
qed

lemma str_int_1: "str_int 1 = ''1''" and str_int_2: "str_int 2 = ''2''"
  by (simp_all add: str_int_def str_nat.simps digit_char_def)

text \<open>
  Claim C10, as the code has it.  \<open>gen_nested_compat_files\<close> returns normally exactly
  when the requested versions are pairwise different and, for each of them, the edge from
  the compat module to its versioned package is in the compat module's import set; the
  same holds of the removal loop alone.  Otherwise it raises a \<open>KeyError\<close> for the edge
  of one of the requested versions.  A version requested twice fails at its second
  removal, although its edge was present before the call.
\<close>

theorem nested_compat_key_error:
  "((\<exists>r. gen_nested_compat_files iter_e iter_s output_dir output_package api_version h
            symbols_by_module generated_imports_by_module docs root_template
            file_prefixes_to_strip use_lazy_loading compat_versions module_prefix = Inr r)
      \<longleftrightarrow> distinct compat_versions
          \<and> (\<forall>v\<in>set compat_versions.
                compat_version_package output_package v
                  \<in> dd_lookup (view h generated_imports_by_module) (output_package @ ''.compat'')))
   \<and> (\<forall>e. gen_nested_compat_files iter_e iter_s output_dir output_package api_version h
            symbols_by_module generated_imports_by_module docs root_template
            file_prefixes_to_strip use_lazy_loading compat_versions module_prefix = Inl e
          \<longrightarrow> (\<exists>v\<in>set compat_versions. e = KeyError (compat_version_package output_package v)))
   \<and> ((\<exists>r. remove_compat_edges h generated_imports_by_module output_package compat_versions
              = Inr r)
      \<longleftrightarrow> distinct compat_versions
          \<and> (\<forall>v\<in>set compat_versions.
                compat_version_package output_package v
                  \<in> dd_lookup (view h generated_imports_by_module) (output_package @ ''.compat'')))"
proof (intro conjI allI impI)
  show "(\<exists>r. gen_nested_compat_files iter_e iter_s output_dir output_package api_version h
            symbols_by_module generated_imports_by_module docs root_template
            file_prefixes_to_strip use_lazy_loading compat_versions module_prefix = Inr r)
      \<longleftrightarrow> distinct compat_versions
          \<and> (\<forall>v\<in>set compat_versions.
                compat_version_package output_package v
                  \<in> dd_lookup (view h generated_imports_by_module) (output_package @ ''.compat''))"
    unfolding gen_nested_compat_files_Inr_iff by (rule remove_compat_edges_iff)
next
  fix e
  assume "gen_nested_compat_files iter_e iter_s output_dir output_package api_version h
            symbols_by_module generated_imports_by_module docs root_template
            file_prefixes_to_strip use_lazy_loading compat_versions module_prefix = Inl e"
  then have "remove_compat_edges h generated_imports_by_module output_package compat_versions
      = Inl e"
    unfolding gen_nested_compat_files_Inl_iff .
  then show "\<exists>v\<in>set compat_versions. e = KeyError (compat_version_package output_package v)"
    by (rule remove_compat_edges_Inl)
next
  show "(\<exists>r. remove_compat_edges h generated_imports_by_module output_package compat_versions
              = Inr r)
      \<longleftrightarrow> distinct compat_versions
          \<and> (\<forall>v\<in>set compat_versions.
                compat_version_package output_package v
                  \<in> dd_lookup (view h generated_imports_by_module) (output_package @ ''.compat''))"
    by (rule remove_compat_edges_iff)
qed

theorem nested_compat_key_error_witness:
  "distinct [1, 2 :: int]
   \<and> compat_version_package ''tf'' 1
     \<in> dd_lookup (view \<lparr>cell = (\<lambda>_. {})(0 := {''tf.compat''},
                           1 := {''tf.compat.v1'', ''tf.compat.v2''}), fresh = 2\<rparr>
           [(''tf'', 0), (''tf.compat'', 1)]) ''tf.compat''
   \<and> compat_version_package ''tf'' 2
     \<in> dd_lookup (view \<lparr>cell = (\<lambda>_. {})(0 := {''tf.compat''},
                           1 := {''tf.compat.v1'', ''tf.compat.v2''}), fresh = 2\<rparr>
           [(''tf'', 0), (''tf.compat'', 1)]) ''tf.compat''
   \<and> (\<exists>r. gen_nested_compat_files (\<lambda>_. []) (\<lambda>S. filter (\<lambda>m. m \<in> S) [''tf'', ''tf.compat''])
        ''out/compat/v1/compat/v2'' ''tf'' 2
        \<lparr>cell = (\<lambda>_. {})(0 := {''tf.compat''}, 1 := {''tf.compat.v1'', ''tf.compat.v2''}),
         fresh = 2\<rparr>
        [] [(''tf'', 0), (''tf.compat'', 1)] [] None [] False [1, 2] '''' = Inr r)"
proof -
  let ?h = "\<lparr>cell = (\<lambda>_. {})(0 := {''tf.compat''}, 1 := {''tf.compat.v1'', ''tf.compat.v2''}),
         fresh = 2\<rparr>"
  let ?g = "[(''tf'', 0), (''tf.compat'', 1 :: nat)]"
  have pre: "distinct [1, 2 :: int]
      \<and> (\<forall>v\<in>set [1, 2]. compat_version_package ''tf'' v \<in> dd_lookup (view ?h ?g) (''tf'' @ ''.compat''))"
    by (simp add: compat_version_package_def str_int_1 str_int_2 dd_lookup_def view_def)
  from nested_compat_key_error [of "\<lambda>_. []" "\<lambda>S. filter (\<lambda>m. m \<in> S) [''tf'', ''tf.compat'']"
      "''out/compat/v1/compat/v2''" "''tf''" 2 ?h "[]" ?g "[]" None "[]" False "[1, 2]" "''''",
      THEN conjunct1, THEN iffD2, OF pre]
  show ?thesis using pre by simp
qed

text \<open>
  The edge of version 1 is in the import set of the compat module and the versions are
  \<open>[1, 1]\<close>: the second removal raises.
\<close>

theorem nested_compat_key_error_counterexample:
  "compat_version_package ''tf'' 1
     \<in> dd_lookup (view \<lparr>cell = (\<lambda>_. {})(0 := {''tf.compat''}, 1 := {''tf.compat.v1''}), fresh = 2\<rparr>
           [(''tf'', 0), (''tf.compat'', 1)]) ''tf.compat''
   \<and> set [1, 1 :: int] = {1}
   \<and> gen_nested_compat_files (\<lambda>_. []) (\<lambda>S. filter (\<lambda>m. m \<in> S) [''tf'', ''tf.compat''])
        ''out/compat/v1/compat/v1'' ''tf'' 1
        \<lparr>cell = (\<lambda>_. {})(0 := {''tf.compat''}, 1 := {''tf.compat.v1''}), fresh = 2\<rparr>
        [] [(''tf'', 0), (''tf.compat'', 1)] [] None [] False [1, 1] ''''
     = Inl (KeyError ''tf.compat.v1'')"
  by (simp add: gen_nested_compat_files_Inl_iff dd_ref_def set_cell_def
      compat_version_package_def str_int_1 dd_lookup_def view_def Let_def)

text \<open>
  Claim C3.  On normal return every import set that existed before the call holds what
  it held before, so the map of generated imports reads as before and the edge of every
  requested version is in the compat module's set before and after.  Between the removal
  and the restoring loop, while the files are written, every set other than the compat
  module's is as before the call.  The references of the map are taken to be allocated
  in the store.
\<close>

theorem nested_compat_restores_imports:
  assumes "gen_nested_compat_files iter_e iter_s output_dir output_package api_version h
             symbols_by_module generated_imports_by_module docs root_template
             file_prefixes_to_strip use_lazy_loading compat_versions module_prefix
           = Inr (h', files)"
    and "\<forall>a\<in>snd ` set generated_imports_by_module. a < fresh h"
  shows "view h' generated_imports_by_module = view h generated_imports_by_module
       \<and> (\<forall>a<fresh h. cell h' a = cell h a)
       \<and> (\<forall>v\<in>set compat_versions.
             compat_version_package output_package v
               \<in> dd_lookup (view h generated_imports_by_module) (output_package @ ''.compat'')
             \<and> compat_version_package output_package v
               \<in> dd_lookup (view h' generated_imports_by_module) (output_package @ ''.compat''))
       \<and> (\<exists>h1 h2 s2 g2 g3.
             remove_compat_edges h generated_imports_by_module output_package compat_versions
               = Inr (h1, generated_imports_by_module)
             \<and> gen_init_files iter_e iter_s output_dir output_package api_version h1
                  (nested_compat_symbols output_package symbols_by_module)
                  generated_imports_by_module docs root_template file_prefixes_to_strip
                  use_lazy_loading module_prefix
                  (Some ((output_package @ ''.compat'') @ ''.v'' @ str_int api_version))
                  ''__init__.py''
                 = (h2, s2, g2, files)
             \<and> add_compat_edges h2 g2 output_package compat_versions = (h', g3)
             \<and> (\<forall>a<fresh h.
                   map_of generated_imports_by_module (output_package @ ''.compat'') \<noteq> Some a
                   \<longrightarrow> cell h1 a = cell h a \<and> cell h2 a = cell h a))"
proof -
  let ?cm = "output_package @ ''.compat''"
  let ?gim = generated_imports_by_module
  let ?E = "compat_version_package output_package ` set compat_versions"
  from gen_nested_compat_files_stages [OF assms(1)] obtain h1 h2 s2 g2 g3 where
    r: "remove_compat_edges h ?gim output_package compat_versions = Inr (h1, ?gim)"
    and g: "gen_init_files iter_e iter_s output_dir output_package api_version h1
                  (nested_compat_symbols output_package symbols_by_module)
                  ?gim docs root_template file_prefixes_to_strip
                  use_lazy_loading module_prefix
                  (Some (?cm @ ''.v'' @ str_int api_version)) ''__init__.py''
                 = (h2, s2, g2, files)"
    and a: "add_compat_edges h2 g2 output_package compat_versions = (h', g3)"
    by blast
  have h1: "h1 = (case map_of ?gim ?cm of None \<Rightarrow> h | Some a \<Rightarrow> set_cell h a (cell h a - ?E))"
    by (rule remove_compat_edges_result(2) [OF r])
  have none: "map_of ?gim ?cm = None \<longrightarrow> compat_versions = []"
    using remove_compat_edges_result(3) [OF r] by simp
  have pre: "distinct compat_versions
      \<and> (\<forall>v\<in>set compat_versions. compat_version_package output_package v
            \<in> dd_lookup (view h ?gim) ?cm)"
    using remove_compat_edges_iff [of h ?gim output_package compat_versions] r by blast
  have ext: "heap_extends h1 h2" and dext: "dict_extends ?gim g2"
    using gen_init_files_frame(1,2) [OF g] by simp_all
  have h': "h' = (case map_of ?gim ?cm of None \<Rightarrow> h2 | Some a \<Rightarrow> set_cell h2 a (cell h2 a \<union> ?E))"
    using add_compat_edges_result [OF dext none, of h2] a by simp
  have f1: "fresh h1 = fresh h" by (simp add: h1 fresh_set_cell split: option.splits)
  have c2: "cell h2 b = cell h1 b" if "b < fresh h" for b
    using ext that f1 by (simp add: heap_extends_def)
  have other: "cell h1 b = cell h b \<and> cell h2 b = cell h b"
    if "b < fresh h" "map_of ?gim ?cm \<noteq> Some b" for b
    using that c2 [OF that(1)] by (auto simp: h1 cell_set_cell split: option.splits)
  have final: "cell h' b = cell h b" if b: "b < fresh h" for b
  proof (cases "map_of ?gim ?cm")
    case None
    then show ?thesis using c2 [OF b] by (simp add: h' h1)
  next
    case (Some a)
    show ?thesis
    proof (cases "b = a")
      case False
      then show ?thesis using c2 [OF b] Some by (simp add: h' h1 cell_set_cell)
    next
      case True
      have "?E \<subseteq> cell h a" using pre Some by (auto simp: dd_lookup_view)
      then have "cell h a - ?E \<union> ?E = cell h a" by blast
      then show ?thesis using c2 [OF b] Some True by (simp add: h' h1 cell_set_cell)
    qed
  qed
  have v: "view h' ?gim = view h ?gim"
    unfolding view_def using assms(2) final by (intro map_cong) auto
  show ?thesis
    using v final pre r g a other by (simp only: v) blast
qed

theorem nested_compat_restores_imports_witness:
  "\<exists>h' files.
     gen_nested_compat_files (\<lambda>_. []) (\<lambda>S. filter (\<lambda>m. m \<in> S) [''tf'', ''tf.compat''])
        ''out/compat/v1/compat/v2'' ''tf'' 2
        \<lparr>cell = (\<lambda>_. {})(0 := {''tf.compat''}, 1 := {''tf.compat.v1'', ''tf.compat.v2''}),
         fresh = 2\<rparr>
        [] [(''tf'', 0), (''tf.compat'', 1)] [] None [] False [1, 2] '''' = Inr (h', files)
     \<and> view h' [(''tf'', 0), (''tf.compat'', 1)]
         = [(''tf'', {''tf.compat''}), (''tf.compat'', {''tf.compat.v1'', ''tf.compat.v2''})]"
proof -
  let ?h = "\<lparr>cell = (\<lambda>_. {})(0 := {''tf.compat''}, 1 := {''tf.compat.v1'', ''tf.compat.v2''}),
         fresh = 2\<rparr>"
  let ?g = "[(''tf'', 0), (''tf.compat'', 1 :: nat)]"
  have "distinct [1, 2 :: int]
      \<and> (\<forall>v\<in>set [1, 2]. compat_version_package ''tf'' v \<in> dd_lookup (view ?h ?g) (''tf'' @ ''.compat''))"
    by (simp add: compat_version_package_def str_int_1 str_int_2 dd_lookup_def view_def)
  then have "\<exists>r. remove_compat_edges ?h ?g ''tf'' [1, 2] = Inr r"
    by (rule remove_compat_edges_iff [THEN iffD2])
  then have "\<exists>r. gen_nested_compat_files (\<lambda>_. []) (\<lambda>S. filter (\<lambda>m. m \<in> S) [''tf'', ''tf.compat''])
        ''out/compat/v1/compat/v2'' ''tf'' 2 ?h [] ?g [] None [] False [1, 2] '''' = Inr r"
    by (rule gen_nested_compat_files_Inr_iff [THEN iffD2])
  then obtain r where r: "gen_nested_compat_files (\<lambda>_. []) (\<lambda>S. filter (\<lambda>m. m \<in> S) [''tf'', ''tf.compat''])
        ''out/compat/v1/compat/v2'' ''tf'' 2 ?h [] ?g [] None [] False [1, 2] '''' = Inr r" ..
  obtain h' files where hf: "r = (h', files)" by (cases r)
  have run: "gen_nested_compat_files (\<lambda>_. []) (\<lambda>S. filter (\<lambda>m. m \<in> S) [''tf'', ''tf.compat''])
        ''out/compat/v1/compat/v2'' ''tf'' 2 ?h [] ?g [] None [] False [1, 2] '''' = Inr (h', files)"
    using r unfolding hf .
  have wf: "\<forall>a\<in>snd ` set ?g. a < fresh ?h" by simp
  have "view h' ?g = view ?h ?g"
    using nested_compat_restores_imports [OF run wf] by blast
  then have "view h' ?g = [(''tf'', {''tf.compat''}), (''tf.compat'', {''tf.compat.v1'', ''tf.compat.v2''})]"
    by (simp add: view_def)
  then show ?thesis using run by blast
qed




section \<open>Properties of the rendering order\<close>

lemma enumeration_mset:
  "distinct xs \<Longrightarrow> distinct ys \<Longrightarrow> set xs = set ys \<Longrightarrow> mset xs = mset ys"
  by (simp add: set_eq_iff_mset_eq_distinct)

lemma enumeration_small:
  assumes "distinct xs" "distinct ys" "set xs = set ys" "set xs \<subseteq> {g}"
  shows "xs = ys"
proof -
  have one: "zs = [] \<or> zs = [g]" if "distinct zs" "set zs \<subseteq> {g}" for zs :: "'a list"
  proof (cases zs)
    case (Cons z zs')
    then have "z = g" "set zs' \<subseteq> {g}" "g \<notin> set zs'" using that by auto
    then have "zs' = []" by (cases zs') auto
    then show ?thesis using Cons \<open>z = g\<close> by simp
  qed simp
  from one [OF assms(1,4)] one [OF assms(2)] assms(3,4) show ?thesis by auto
qed

lemma sort_key_enumeration:
  assumes "distinct xs" "distinct ys" "set xs = set ys" "inj_on k (set xs)"
  shows "sort_key k xs = sort_key k ys"
proof -
  have "map k (sort_key k xs) = map k (sort_key k ys)"
  proof (rule sorted_distinct_set_unique)
    show "sorted (map k (sort_key k xs))" "sorted (map k (sort_key k ys))" by simp_all
    show "distinct (map k (sort_key k xs))"
      using assms(1,4) by (simp add: distinct_map)
    show "distinct (map k (sort_key k ys))"
      using assms(2,3,4) by (simp add: distinct_map)
    show "set (map k (sort_key k xs)) = set (map k (sort_key k ys))"
      using assms(3) by simp
  qed
  moreover have "inj_on k (set (sort_key k xs) \<union> set (sort_key k ys))"
    using assms(3,4) by simp
  ultimately show ?thesis by (simp add: inj_on_map_eq_map)
qed

text \<open>
  How far the import block of a module depends on the order in which its two sets are
  iterated.  Whatever the orders, the block has the same lines, as a multiset; the lines
  of the generated imports come first, in the order the set of child modules is
  iterated, and the lines of the symbols follow in the order of their source files.  Only
  a module with at most one generated import and no two entrypoints from the same file
  gets the same block for every order.
\<close>

lemma imports_lines_up_to_order:
  assumes "distinct (iter_e (dd_lookup symbols_by_module m))"
      "set (iter_e (dd_lookup symbols_by_module m)) = dd_lookup symbols_by_module m"
    and "distinct (iter_e' (dd_lookup symbols_by_module m))"
      "set (iter_e' (dd_lookup symbols_by_module m)) = dd_lookup symbols_by_module m"
    and "distinct (iter_s (dd_lookup generated_imports_by_module m))"
      "set (iter_s (dd_lookup generated_imports_by_module m))
         = dd_lookup generated_imports_by_module m"
    and "distinct (iter_s' (dd_lookup generated_imports_by_module m))"
      "set (iter_s' (dd_lookup generated_imports_by_module m))
         = dd_lookup generated_imports_by_module m"
  shows "mset (imports_lines iter_e iter_s m output_package symbols_by_module
                 generated_imports_by_module file_prefixes_to_strip module_prefix
                 use_lazy_loading subpackage_rewrite)
         = mset (imports_lines iter_e' iter_s' m output_package symbols_by_module
                 generated_imports_by_module file_prefixes_to_strip module_prefix
                 use_lazy_loading subpackage_rewrite)
       \<and> (\<exists>gs ss.
             imports_lines iter_e iter_s m output_package symbols_by_module
               generated_imports_by_module file_prefixes_to_strip module_prefix
               use_lazy_loading subpackage_rewrite
             = map (\<lambda>imp. generated_import_line use_lazy_loading
                            (rewrite_import output_package subpackage_rewrite imp)) gs
               @ map (\<lambda>s. get_import s file_prefixes_to_strip module_prefix use_lazy_loading) ss
             \<and> distinct gs \<and> set gs = dd_lookup generated_imports_by_module m
             \<and> distinct ss \<and> set ss = dd_lookup symbols_by_module m
             \<and> sorted (map (\<lambda>s. file_name (exported_symbol s)) ss))
       \<and> ((\<exists>g. dd_lookup generated_imports_by_module m \<subseteq> {g})
            \<and> inj_on (\<lambda>s. file_name (exported_symbol s)) (dd_lookup symbols_by_module m)
          \<longrightarrow> get_imports_for_module iter_e iter_s m output_package symbols_by_module
                generated_imports_by_module file_prefixes_to_strip module_prefix
                use_lazy_loading subpackage_rewrite
              = get_imports_for_module iter_e' iter_s' m output_package symbols_by_module
                generated_imports_by_module file_prefixes_to_strip module_prefix
                use_lazy_loading subpackage_rewrite)"
proof (intro conjI impI)
  let ?S = "dd_lookup symbols_by_module m"
  let ?G = "dd_lookup generated_imports_by_module m"
  let ?k = "\<lambda>s. file_name (exported_symbol s)"
  let ?gl = "\<lambda>imp. generated_import_line use_lazy_loading
                     (rewrite_import output_package subpackage_rewrite imp)"
  let ?sl = "\<lambda>s. get_import s file_prefixes_to_strip module_prefix use_lazy_loading"
  have se: "set (iter_e ?S) = set (iter_e' ?S)" by (simp only: assms(2) assms(4))
  have sg: "set (iter_s ?G) = set (iter_s' ?G)" by (simp only: assms(6) assms(8))
  have me: "mset (iter_e ?S) = mset (iter_e' ?S)"
    by (rule enumeration_mset [OF assms(1) assms(3) se])
  have ms: "mset (iter_s ?G) = mset (iter_s' ?G)"
    by (rule enumeration_mset [OF assms(5) assms(7) sg])
  have lines: "imports_lines it_e it_s m output_package symbols_by_module
                 generated_imports_by_module file_prefixes_to_strip module_prefix
                 use_lazy_loading subpackage_rewrite
        = map ?gl (it_s ?G) @ map ?sl (sort_key ?k (it_e ?S))" for it_e it_s
    unfolding imports_lines_def Let_def ..
  have ml: "mset (map ?gl (it_s ?G) @ map ?sl (sort_key ?k (it_e ?S)))
        = image_mset ?gl (mset (it_s ?G)) + image_mset ?sl (mset (it_e ?S))" for it_e it_s
    by simp
  show "mset (imports_lines iter_e iter_s m output_package symbols_by_module
                 generated_imports_by_module file_prefixes_to_strip module_prefix
                 use_lazy_loading subpackage_rewrite)
         = mset (imports_lines iter_e' iter_s' m output_package symbols_by_module
                 generated_imports_by_module file_prefixes_to_strip module_prefix
                 use_lazy_loading subpackage_rewrite)"
    unfolding lines ml me ms ..
  have "sorted (map ?k (sort_key ?k (iter_e ?S)))" by (rule sorted_sort_key)
  moreover have "distinct (sort_key ?k (iter_e ?S))" "set (sort_key ?k (iter_e ?S)) = ?S"
    using assms(1,2) by (simp_all only: distinct_sort set_sort)
  ultimately have "imports_lines iter_e iter_s m output_package symbols_by_module
               generated_imports_by_module file_prefixes_to_strip module_prefix
               use_lazy_loading subpackage_rewrite
             = map ?gl (iter_s ?G) @ map ?sl (sort_key ?k (iter_e ?S))
             \<and> distinct (iter_s ?G) \<and> set (iter_s ?G) = ?G
             \<and> distinct (sort_key ?k (iter_e ?S)) \<and> set (sort_key ?k (iter_e ?S)) = ?S
             \<and> sorted (map ?k (sort_key ?k (iter_e ?S)))"
    using lines [of iter_e iter_s] assms(5,6) by (intro conjI)
  then show "\<exists>gs ss.
             imports_lines iter_e iter_s m output_package symbols_by_module
               generated_imports_by_module file_prefixes_to_strip module_prefix
               use_lazy_loading subpackage_rewrite
             = map ?gl gs @ map ?sl ss
             \<and> distinct gs \<and> set gs = ?G \<and> distinct ss \<and> set ss = ?S
             \<and> sorted (map ?k ss)"
    by (intro exI)
  assume c: "(\<exists>g. ?G \<subseteq> {g}) \<and> inj_on ?k ?S"
  then obtain g where g: "?G \<subseteq> {g}" by (elim conjE exE)
  have g': "set (iter_s ?G) \<subseteq> {g}" using g by (simp only: assms(6))
  have gs: "iter_s ?G = iter_s' ?G"
    by (rule enumeration_small [OF assms(5) assms(7) sg g'])
  have inj: "inj_on ?k (set (iter_e ?S))" using c by (simp only: assms(2))
  have ss: "sort_key ?k (iter_e ?S) = sort_key ?k (iter_e' ?S)"
    by (rule sort_key_enumeration [OF assms(1) assms(3) se inj])
  have il: "imports_lines iter_e iter_s m output_package symbols_by_module
               generated_imports_by_module file_prefixes_to_strip module_prefix
               use_lazy_loading subpackage_rewrite
          = imports_lines iter_e' iter_s' m output_package symbols_by_module
               generated_imports_by_module file_prefixes_to_strip module_prefix
               use_lazy_loading subpackage_rewrite"
    unfolding lines gs ss ..
  show "get_imports_for_module iter_e iter_s m output_package symbols_by_module
                generated_imports_by_module file_prefixes_to_strip module_prefix
                use_lazy_loading subpackage_rewrite
              = get_imports_for_module iter_e' iter_s' m output_package symbols_by_module
                generated_imports_by_module file_prefixes_to_strip module_prefix
                use_lazy_loading subpackage_rewrite"
    unfolding get_imports_for_module_def il ..
qed

text \<open>
  The text of a file also depends on the order in which the modules are visited.  The
  lookup \<open>symbols_by_module[module]\<close> adds the module to the map of entrypoints when
  it has none, and \<open>_get_module_wrapper\<close> tests whether \<open>lite\<close> is a key of that
  map.  With the package \<open>lite\<close> and lazy loading, the root module \<open>lite\<close> has no
  symbol of its own and becomes a key when its file is written: the file of \<open>lite.a\<close>
  gets \<open>has_lite=True\<close> when the root module is visited before it and
  \<open>has_lite=False\<close> when it is visited first.
\<close>

lemma module_order_changes_has_lite:
  "snd (snd (snd (gen_init_files
      (\<lambda>S. if S = {} then [] else
         [\<lparr>ep_module = ''lite.a'', ep_name = ''f'', exported_symbol =
            \<lparr>file_name = ''a.py'', line_no = 1, symbol_name = ''f'', v1_apis = [],
              v2_apis = [''lite.a.f'']\<rparr>\<rparr>])
      (\<lambda>S. if ''lite'' \<in> S then [''lite'', ''lite.a'']
           else if ''lite.a'' \<in> S then [''lite.a''] else [])
      ''out'' ''lite'' 2 \<lparr>cell = (\<lambda>_. {})(0 := {''lite.a''}), fresh = 1\<rparr>
      [(''lite.a'', {\<lparr>ep_module = ''lite.a'', ep_name = ''f'', exported_symbol =
            \<lparr>file_name = ''a.py'', line_no = 1, symbol_name = ''f'', v1_apis = [],
              v2_apis = [''lite.a.f'']\<rparr>\<rparr>})]
      [(''lite'', 0)] [] None [] True '''' None ''__init__.py'')))
   = [(''lite'', ''out/__init__.py'',
       GENERATED_FILE_HEADER (get_module_docstring [] ''lite'')
         @ LAZY_LOADING_MODULE_TEXT_TEMPLATE
             (''  '' @ sq @ ''a'' @ sq @ '': ('' @ sq @ sq @ '', '' @ sq @ ''lite.a'' @ sq
                @ ''),'' @ nl)
         @ DEPRECATION_FOOTER '''' ''_PUBLIC_APIS'' ''False'' ''True''),
      (''lite.a'', ''out/a/__init__.py'',
       GENERATED_FILE_HEADER (get_module_docstring [] ''lite.a'')
         @ LAZY_LOADING_MODULE_TEXT_TEMPLATE
             (''  '' @ sq @ ''f'' @ sq @ '': ('' @ sq @ ''a'' @ sq @ '', '' @ sq @ ''f'' @ sq
                @ ''), # line: 1'' @ nl)
         @ DEPRECATION_FOOTER ''a'' ''_PUBLIC_APIS'' ''False'' ''True'')]
   \<and> snd (snd (snd (gen_init_files
      (\<lambda>S. if S = {} then [] else
         [\<lparr>ep_module = ''lite.a'', ep_name = ''f'', exported_symbol =
            \<lparr>file_name = ''a.py'', line_no = 1, symbol_name = ''f'', v1_apis = [],
              v2_apis = [''lite.a.f'']\<rparr>\<rparr>])
      (\<lambda>S. if ''lite'' \<in> S then [''lite.a'', ''lite'']
           else if ''lite.a'' \<in> S then [''lite.a''] else [])
      ''out'' ''lite'' 2 \<lparr>cell = (\<lambda>_. {})(0 := {''lite.a''}), fresh = 1\<rparr>
      [(''lite.a'', {\<lparr>ep_module = ''lite.a'', ep_name = ''f'', exported_symbol =
            \<lparr>file_name = ''a.py'', line_no = 1, symbol_name = ''f'', v1_apis = [],
              v2_apis = [''lite.a.f'']\<rparr>\<rparr>})]
      [(''lite'', 0)] [] None [] True '''' None ''__init__.py'')))
   = [(''lite.a'', ''out/a/__init__.py'',
       GENERATED_FILE_HEADER (get_module_docstring [] ''lite.a'')
         @ LAZY_LOADING_MODULE_TEXT_TEMPLATE
             (''  '' @ sq @ ''f'' @ sq @ '': ('' @ sq @ ''a'' @ sq @ '', '' @ sq @ ''f'' @ sq
                @ ''), # line: 1'' @ nl)
         @ DEPRECATION_FOOTER ''a'' ''_PUBLIC_APIS'' ''False'' ''False''),
      (''lite'', ''out/__init__.py'',
       GENERATED_FILE_HEADER (get_module_docstring [] ''lite'')
         @ LAZY_LOADING_MODULE_TEXT_TEMPLATE
             (''  '' @ sq @ ''a'' @ sq @ '': ('' @ sq @ sq @ '', '' @ sq @ ''lite.a'' @ sq
                @ ''),'' @ nl)
         @ DEPRECATION_FOOTER '''' ''_PUBLIC_APIS'' ''False'' ''True'')]"
  by (simp add: gen_init_files_def gen_init_file_def keys_def dd_touch_def dd_ref_def view_def
      init_file_path_def init_file_content_def get_imports_for_module_def imports_lines_def
      generated_import_line_def rewrite_import_def get_import_def get_import_path_def
      get_module_wrapper_def os_path_join_def dd_lookup_def removeprefix_def
      removesuffix_def endswith_def strip_def startswith_def str_int_def str_nat.simps
      digit_char_def slice_def slice_index_def slice_to_def slice_from_def Let_def)

text \<open>
  Claim C9: two runs of the generator on the same input write the same bytes to every
  file.  The code does not do that.  The symbol \<open>f\<close> of \<open>a.py\<close> exported as
  \<open>tf.a.f\<close> and the symbol \<open>g\<close> of \<open>b.py\<close> exported as \<open>tf.b.g\<close>, under the
  package \<open>tf\<close>, give the root module \<open>tf\<close> the set of generated imports
  \<open>{tf.a, tf.b}\<close>.  \<open>_get_imports_for_module\<close> writes the lines of that set in the
  order its \<open>for\<close> loop visits it, where it sorts the symbol imports: a run that visits
  the set as \<open>tf.a, tf.b\<close> and a run that visits it as \<open>tf.b, tf.a\<close> write
  different text to \<open>out/__init__.py\<close>.  The two runs below visit the modules in the same
  order and have the same files for \<open>tf.a\<close> and \<open>tf.b\<close>.
\<close>

theorem generated_imports_order_changes_root_file:
  "get_public_api
       [\<lparr>file_name = ''a.py'', line_no = 1, symbol_name = ''f'', v1_apis = [],
          v2_apis = [''tf.a.f'']\<rparr>,
        \<lparr>file_name = ''b.py'', line_no = 2, symbol_name = ''g'', v1_apis = [],
          v2_apis = [''tf.b.g'']\<rparr>] [] [] [] ''tf'' ''''
     = Inr \<lparr>v1_entrypoints_by_module = [],
            v2_entrypoints_by_module =
              [(''tf.a'', {\<lparr>ep_module = ''tf.a'', ep_name = ''f'', exported_symbol =
                  \<lparr>file_name = ''a.py'', line_no = 1, symbol_name = ''f'', v1_apis = [],
                    v2_apis = [''tf.a.f'']\<rparr>\<rparr>}),
               (''tf.b'', {\<lparr>ep_module = ''tf.b'', ep_name = ''g'', exported_symbol =
                  \<lparr>file_name = ''b.py'', line_no = 2, symbol_name = ''g'', v1_apis = [],
                    v2_apis = [''tf.b.g'']\<rparr>\<rparr>})],
            v1_generated_imports_by_module = [],
            v2_generated_imports_by_module = [(''tf'', {''tf.a'', ''tf.b''})],
            docs_by_module = []\<rparr>
   \<and> view \<lparr>cell = (\<lambda>_. {})(0 := {''tf.a'', ''tf.b''}), fresh = 1\<rparr> [(''tf'', 0)]
       = [(''tf'', {''tf.a'', ''tf.b''})]
   \<and> set [''tf.a'', ''tf.b''] = {''tf.a'', ''tf.b''}
   \<and> set [''tf.b'', ''tf.a''] = {''tf.a'', ''tf.b''}
   \<and> snd (snd (snd (gen_init_files
        (\<lambda>S. if \<lparr>ep_module = ''tf.a'', ep_name = ''f'', exported_symbol =
                  \<lparr>file_name = ''a.py'', line_no = 1, symbol_name = ''f'', v1_apis = [],
                    v2_apis = [''tf.a.f'']\<rparr>\<rparr> \<in> S
             then [\<lparr>ep_module = ''tf.a'', ep_name = ''f'', exported_symbol =
                  \<lparr>file_name = ''a.py'', line_no = 1, symbol_name = ''f'', v1_apis = [],
                    v2_apis = [''tf.a.f'']\<rparr>\<rparr>]
             else if \<lparr>ep_module = ''tf.b'', ep_name = ''g'', exported_symbol =
                  \<lparr>file_name = ''b.py'', line_no = 2, symbol_name = ''g'', v1_apis = [],
                    v2_apis = [''tf.b.g'']\<rparr>\<rparr> \<in> S
             then [\<lparr>ep_module = ''tf.b'', ep_name = ''g'', exported_symbol =
                  \<lparr>file_name = ''b.py'', line_no = 2, symbol_name = ''g'', v1_apis = [],
                    v2_apis = [''tf.b.g'']\<rparr>\<rparr>]
             else [])
        (\<lambda>S. if ''tf'' \<in> S then [''tf'', ''tf.a'', ''tf.b'']
             else if ''tf.a'' \<in> S then [''tf.a'', ''tf.b''] else [])
        ''out'' ''tf'' 2 \<lparr>cell = (\<lambda>_. {})(0 := {''tf.a'', ''tf.b''}), fresh = 1\<rparr>
        [(''tf.a'', {\<lparr>ep_module = ''tf.a'', ep_name = ''f'', exported_symbol =
                  \<lparr>file_name = ''a.py'', line_no = 1, symbol_name = ''f'', v1_apis = [],
                    v2_apis = [''tf.a.f'']\<rparr>\<rparr>}),
         (''tf.b'', {\<lparr>ep_module = ''tf.b'', ep_name = ''g'', exported_symbol =
                  \<lparr>file_name = ''b.py'', line_no = 2, symbol_name = ''g'', v1_apis = [],
                    v2_apis = [''tf.b.g'']\<rparr>\<rparr>})]
        [(''tf'', 0)] [] None [] False '''' None ''__init__.py'')))
     = [(''tf'', ''out/__init__.py'',
         GENERATED_FILE_HEADER (get_module_docstring [] ''tf'')
           @ ''from tf import a'' @ nl @ ''from tf import b'' @ nl),
        (''tf.a'', ''out/a/__init__.py'',
         GENERATED_FILE_HEADER (get_module_docstring [] ''tf.a'')
           @ ''from a import f # line: 1'' @ nl),
        (''tf.b'', ''out/b/__init__.py'',
         GENERATED_FILE_HEADER (get_module_docstring [] ''tf.b'')
           @ ''from b import g # line: 2'' @ nl)]
   \<and> snd (snd (snd (gen_init_files
        (\<lambda>S. if \<lparr>ep_module = ''tf.a'', ep_name = ''f'', exported_symbol =
                  \<lparr>file_name = ''a.py'', line_no = 1, symbol_name = ''f'', v1_apis = [],
                    v2_apis = [''tf.a.f'']\<rparr>\<rparr> \<in> S
             then [\<lparr>ep_module = ''tf.a'', ep_name = ''f'', exported_symbol =
                  \<lparr>file_name = ''a.py'', line_no = 1, symbol_name = ''f'', v1_apis = [],
                    v2_apis = [''tf.a.f'']\<rparr>\<rparr>]
             else if \<lparr>ep_module = ''tf.b'', ep_name = ''g'', exported_symbol =
                  \<lparr>file_name = ''b.py'', line_no = 2, symbol_name = ''g'', v1_apis = [],
                    v2_apis = [''tf.b.g'']\<rparr>\<rparr> \<in> S
             then [\<lparr>ep_module = ''tf.b'', ep_name = ''g'', exported_symbol =
                  \<lparr>file_name = ''b.py'', line_no = 2, symbol_name = ''g'', v1_apis = [],
                    v2_apis = [''tf.b.g'']\<rparr>\<rparr>]
             else [])
        (\<lambda>S. if ''tf'' \<in> S then [''tf'', ''tf.a'', ''tf.b'']
             else if ''tf.a'' \<in> S then [''tf.b'', ''tf.a''] else [])
        ''out'' ''tf'' 2 \<lparr>cell = (\<lambda>_. {})(0 := {''tf.a'', ''tf.b''}), fresh = 1\<rparr>
        [(''tf.a'', {\<lparr>ep_module = ''tf.a'', ep_name = ''f'', exported_symbol =
                  \<lparr>file_name = ''a.py'', line_no = 1, symbol_name = ''f'', v1_apis = [],
                    v2_apis = [''tf.a.f'']\<rparr>\<rparr>}),
         (''tf.b'', {\<lparr>ep_module = ''tf.b'', ep_name = ''g'', exported_symbol =
                  \<lparr>file_name = ''b.py'', line_no = 2, symbol_name = ''g'', v1_apis = [],
                    v2_apis = [''tf.b.g'']\<rparr>\<rparr>})]
        [(''tf'', 0)] [] None [] False '''' None ''__init__.py'')))
     = [(''tf'', ''out/__init__.py'',
         GENERATED_FILE_HEADER (get_module_docstring [] ''tf'')
           @ ''from tf import b'' @ nl @ ''from tf import a'' @ nl),
        (''tf.a'', ''out/a/__init__.py'',
         GENERATED_FILE_HEADER (get_module_docstring [] ''tf.a'')
           @ ''from a import f # line: 1'' @ nl),
        (''tf.b'', ''out/b/__init__.py'',
         GENERATED_FILE_HEADER (get_module_docstring [] ''tf.b'')
           @ ''from b import g # line: 2'' @ nl)]
   \<and> GENERATED_FILE_HEADER (get_module_docstring [] ''tf'')
         @ ''from tf import a'' @ nl @ ''from tf import b'' @ nl
       \<noteq> GENERATED_FILE_HEADER (get_module_docstring [] ''tf'')
         @ ''from tf import b'' @ nl @ ''from tf import a'' @ nl"
proof (intro conjI)
qed (simp_all add: get_public_api_def collect_entrypoints_def should_skip_file_def
      add_exported_symbols_def api_module_def api_entrypoint_def api_symbol_name_def
      dd_add_def add_generated_imports_def add_generated_imports_module.simps
      gen_init_files_def gen_init_file_def keys_def dd_touch_def dd_ref_def view_def
      init_file_path_def init_file_content_def get_imports_for_module_def imports_lines_def
      generated_import_line_def rewrite_import_def get_import_def get_import_path_def
      get_module_wrapper_def os_path_join_def dd_lookup_def
      removesuffix_def endswith_def strip_def startswith_def str_int_def str_nat.simps
      digit_char_def slice_def slice_index_def slice_to_def slice_from_def Let_def
      insert_commute)

section \<open>Properties of the injection loop\<close>

lemma dd_ref_allocated_all:
  assumes "dd_ref h g k = (a, h', g')" "allocated h g" "allocated h d"
  shows "allocated h' g' \<and> allocated h' d \<and> map_of g' k = Some a
    \<and> dd_lookup (view h' g') x = dd_lookup (view h g) x
    \<and> dd_lookup (view h' d) x = dd_lookup (view h d) x"
proof (cases "map_of g k")
  case (Some b)
  then have e: "a = b" "h' = h" "g' = g" using assms(1) by (simp_all add: dd_ref_def)
  show ?thesis using assms(2,3) Some by (simp add: e)
next
  case None
  then have e: "a = fresh h" "h' = h\<lparr>cell := (cell h)(fresh h := {}), fresh := Suc (fresh h)\<rparr>"
    "g' = g @ [(k, fresh h)]"
    using assms(1) by (auto simp: dd_ref_def)
  have m: "map_of g' y = (case map_of g y of Some b \<Rightarrow> Some b
                          | None \<Rightarrow> if y = k then Some (fresh h) else None)" for y
    by (simp add: e map_add_def split: option.splits)
  have 1: "allocated h' g'"
    using assms(2) by (auto simp: allocated_def m e(2) less_Suc_eq split: option.splits if_splits)
  have 2: "allocated h' d"
    using assms(3) by (auto simp: allocated_def e(2) less_Suc_eq)
  have 3: "map_of g' k = Some a" by (simp add: m None e(1))
  have c: "cell h' b = cell h b" if "b < fresh h" for b using that by (simp add: e(2))
  have 4: "dd_lookup (view h' g') x = dd_lookup (view h g) x"
  proof (cases "map_of g x")
    case (Some b)
    then have "b < fresh h" using assms(2) by (simp add: allocated_def)
    then show ?thesis using Some by (simp add: dd_lookup_view m c)
  next
    case N: None
    then show ?thesis by (simp add: dd_lookup_view m e(2))
  qed
  have 5: "dd_lookup (view h' d) x = dd_lookup (view h d) x"
  proof (cases "map_of d x")
    case (Some b)
    then have "b < fresh h" using assms(3) by (simp add: allocated_def)
    then show ?thesis using Some by (simp add: dd_lookup_view c)
  next
    case N: None
    then show ?thesis by (simp add: dd_lookup_view)
  qed
  show ?thesis using 1 2 3 4 5 by simp
qed

lemma dd_ref_allocated:
  assumes "dd_ref h g k = (a, h', g')" "allocated h g" "allocated h d"
  shows "allocated h' g'" "allocated h' d" "map_of g' k = Some a"
    "dd_lookup (view h' g') x = dd_lookup (view h g) x"
    "dd_lookup (view h' d) x = dd_lookup (view h d) x"
  using dd_ref_allocated_all [OF assms, of x] by simp_all

lemma set_cell_insert_view:
  "dd_lookup (view h d) x \<subseteq> dd_lookup (view (set_cell h a (insert e (cell h a))) d) x"
  by (auto simp: dd_lookup_view cell_set_cell split: option.splits)

lemma set_cell_insert_edge:
  "map_of d k = Some a \<Longrightarrow> e \<in> dd_lookup (view (set_cell h a (insert e (cell h a))) d) k"
  by (simp add: dd_lookup_view cell_set_cell)

lemma allocated_set_cell: "allocated (set_cell h a s) d = allocated h d"
  by (simp add: allocated_def fresh_set_cell)

lemma inject_compat_edges_grows:
  assumes "inject_compat_edges h v2 v1 op vs = (h', v2', v1')"
    and "allocated h v2" "allocated h v1"
  shows "dd_lookup (view h v2) (op @ ''.compat'') \<union> compat_version_package op ` set vs
           \<subseteq> dd_lookup (view h' v2') (op @ ''.compat'')
       \<and> dd_lookup (view h v1) (op @ ''.compat'') \<union> compat_version_package op ` set vs
           \<subseteq> dd_lookup (view h' v1') (op @ ''.compat'')"
  using assms
proof (induction vs arbitrary: h v2 v1)
  case Nil
  then show ?case by simp
next
  case (Cons v vs)
  let ?cm = "op @ ''.compat''"
  let ?e = "compat_version_package op v"
  obtain a2 h2 g2 where r2: "dd_ref h v2 ?cm = (a2, h2, g2)" by (metis prod_cases3)
  let ?h2 = "set_cell h2 a2 (insert ?e (cell h2 a2))"
  obtain a1 h1 g1 where r1: "dd_ref ?h2 v1 ?cm = (a1, h1, g1)" by (metis prod_cases3)
  let ?h1 = "set_cell h1 a1 (insert ?e (cell h1 a1))"
  have rec: "inject_compat_edges ?h1 g2 g1 op vs = (h', v2', v1')"
    using Cons.prems(1) r2 r1 by (simp add: Let_def)
  note A = dd_ref_allocated [OF r2 Cons.prems(2) Cons.prems(3)]
  have al2: "allocated ?h2 g2" "allocated ?h2 v1"
    using A(1,2) by (simp_all add: allocated_set_cell)
  note B = dd_ref_allocated [OF r1 al2(2) al2(1)]
  have al1: "allocated ?h1 g2" "allocated ?h1 g1"
    using B(1,2) by (simp_all add: allocated_set_cell)
  from Cons.IH [OF rec al1]
  have IH2: "dd_lookup (view ?h1 g2) ?cm \<union> compat_version_package op ` set vs
           \<subseteq> dd_lookup (view h' v2') ?cm"
    and IH1: "dd_lookup (view ?h1 g1) ?cm \<union> compat_version_package op ` set vs
           \<subseteq> dd_lookup (view h' v1') ?cm" by simp_all
  have s2: "insert ?e (dd_lookup (view h v2) ?cm) \<subseteq> dd_lookup (view ?h1 g2) ?cm"
  proof -
    have "insert ?e (dd_lookup (view h2 g2) ?cm) \<subseteq> dd_lookup (view ?h2 g2) ?cm"
      using set_cell_insert_view [of h2 g2 ?cm a2 ?e] set_cell_insert_edge [OF A(3), of ?e h2]
      by simp
    also have "\<dots> = dd_lookup (view h1 g2) ?cm" by (simp only: B(5))
    also have "\<dots> \<subseteq> dd_lookup (view ?h1 g2) ?cm" by (rule set_cell_insert_view)
    finally show ?thesis by (simp only: A(4))
  qed
  have s1: "insert ?e (dd_lookup (view h v1) ?cm) \<subseteq> dd_lookup (view ?h1 g1) ?cm"
  proof -
    have "dd_lookup (view h v1) ?cm = dd_lookup (view h2 v1) ?cm" by (simp only: A(5))
    also have "\<dots> \<subseteq> dd_lookup (view ?h2 v1) ?cm" by (rule set_cell_insert_view)
    also have "\<dots> = dd_lookup (view h1 g1) ?cm" by (simp only: B(4))
    also have "\<dots> \<subseteq> dd_lookup (view ?h1 g1) ?cm" by (rule set_cell_insert_view)
    finally have "dd_lookup (view h v1) ?cm \<subseteq> dd_lookup (view ?h1 g1) ?cm" .
    then show ?thesis using set_cell_insert_edge [OF B(3), of ?e h1] by simp
  qed
  show ?case using IH2 IH1 s2 s1 by auto
qed

text \<open>
  After the injection loop the edge of every requested version is in the compat module's
  set of both maps, so for pairwise different versions the nested generation returns
  normally on either map.
\<close>

lemma injected_edges_present:
  assumes "inject_compat_edges h v2 v1 output_package compat_versions = (h', v2', v1')"
    and "allocated h v2" "allocated h v1" and "v \<in> set compat_versions"
  shows "compat_version_package output_package v
           \<in> dd_lookup (view h' v2') (output_package @ ''.compat'')"
    and "compat_version_package output_package v
           \<in> dd_lookup (view h' v1') (output_package @ ''.compat'')"
  using inject_compat_edges_grows [OF assms(1,2,3)] assms(4) by auto

lemma nested_after_injection:
  assumes "inject_compat_edges h v2 v1 output_package compat_versions = (h', v2', v1')"
    and "allocated h v2" "allocated h v1" and "distinct compat_versions"
    and "g = v2' \<or> g = v1'"
  shows "\<exists>r. gen_nested_compat_files iter_e iter_s output_dir output_package api_version h'
               symbols_by_module g docs root_template file_prefixes_to_strip
               use_lazy_loading compat_versions module_prefix = Inr r"
proof -
  have "\<forall>v\<in>set compat_versions.
      compat_version_package output_package v \<in> dd_lookup (view h' g) (output_package @ ''.compat'')"
    using injected_edges_present [OF assms(1,2,3)] assms(5) by blast
  then have "\<exists>r. remove_compat_edges h' g output_package compat_versions = Inr r"
    using assms(4) by (simp only: remove_compat_edges_iff simp_thms)
  then show ?thesis by (rule gen_nested_compat_files_Inr_iff [THEN iffD2])
qed

end
